theory Spec2Isabelle
  imports Main "HOL-Library.Sublist" "HOL-Library.Char_ord" "HOL-Library.List_Lexorder"
begin

section \<open>Values of the source language\<close>

text \<open>
  The store is written in TypeScript. An optional string (\<open>string | undefined\<close>) is a
  \<open>string option\<close>; the source tests such values by truthiness (\<open>x ? a : b\<close>,
  \<open>x && y\<close>, \<open>!x\<close>), under which both \<open>undefined\<close> and the empty string are false,
  and by nullishness (\<open>x ?? d\<close>), under which only \<open>undefined\<close> is replaced.
\<close>

fun truthy :: "string option \<Rightarrow> bool" where
  "truthy None = False"
| "truthy (Some s) = (s \<noteq> [])"

fun truthy_flag :: "bool option \<Rightarrow> bool" where
  "truthy_flag None = False"
| "truthy_flag (Some b) = b"

text \<open>\<open>x ? x : d\<close> on an optional string.\<close>

definition or_else :: "string option \<Rightarrow> string \<Rightarrow> string" where
  "or_else x d = (if truthy x then the x else d)"

text \<open>\<open>x ?? d\<close> on an optional string.\<close>

fun nullish_or :: "string option \<Rightarrow> string \<Rightarrow> string" where
  "nullish_or None d = d"
| "nullish_or (Some s) d = s"

section \<open>Installations and queries\<close>

record Installation =
  enterprise_id :: "string option"
  team_id :: "string option"
  user_id :: "string option"
  is_enterprise_install :: "bool option"
  bot_token :: "string option"
  bot_refresh_token :: "string option"
  bot_token_expires_at :: "int option"
  bot_scopes :: "string list option"
  user_token :: "string option"
  user_refresh_token :: "string option"
  user_token_expires_at :: "int option"
  user_scopes :: "string list option"

record InstallationStoreQuery =
  enterpriseId :: "string option"
  teamId :: "string option"
  userId :: "string option"
  isEnterpriseInstall :: "bool option"

subsection \<open>Composite storage keys\<close>

definition toBotInstallationQuery :: "string \<Rightarrow> InstallationStoreQuery \<Rightarrow> string" where
  "toBotInstallationQuery clientId q =
     (let e = or_else (enterpriseId q) ''_'';
          t = (if truthy (teamId q) \<and> \<not> truthy_flag (isEnterpriseInstall q)
               then the (teamId q) else ''_'')
      in clientId @ ''/'' @ e @ '':'' @ t)"

definition toUserInstallationQuery :: "string \<Rightarrow> InstallationStoreQuery \<Rightarrow> string" where
  "toUserInstallationQuery clientId q =
     (let e = or_else (enterpriseId q) ''_'';
          t = (if truthy (teamId q) \<and> \<not> truthy_flag (isEnterpriseInstall q)
               then the (teamId q) else ''_'');
          u = or_else (userId q) ''_''
      in clientId @ ''/'' @ e @ '':'' @ t @ '':'' @ u)"

definition toBotInstallationKey :: "string \<Rightarrow> Installation \<Rightarrow> string" where
  "toBotInstallationKey clientId installation =
     (let e = nullish_or (enterprise_id installation) ''_'';
          t = (if truthy (team_id installation) \<and> \<not> truthy_flag (is_enterprise_install installation)
               then the (team_id installation) else ''_'')
      in clientId @ ''/'' @ e @ '':'' @ t)"

definition toUserInstallationKey :: "string \<Rightarrow> Installation \<Rightarrow> string" where
  "toUserInstallationKey clientId installation =
     (let e = nullish_or (enterprise_id installation) ''_'';
          t = (if truthy (team_id installation) \<and> \<not> truthy_flag (is_enterprise_install installation)
               then the (team_id installation) else ''_'');
          u = nullish_or (user_id installation) ''_''
      in clientId @ ''/'' @ e @ '':'' @ t @ '':'' @ u)"

text \<open>The query that addresses a given installation: each identity field copied over.\<close>

definition queryDerivedFrom :: "Installation \<Rightarrow> InstallationStoreQuery" where
  "queryDerivedFrom i =
     \<lparr> enterpriseId = enterprise_id i, teamId = team_id i, userId = user_id i,
       isEnterpriseInstall = is_enterprise_install i \<rparr>"

section \<open>Errors and asynchronous results\<close>

text \<open>
  Every \<open>throw\<close> and every rejected promise of the source is a value of \<open>js_error\<close>.
  \<open>AuthorizeError\<close> is built from a message that interpolates the caught error and the
  serialised query; the model keeps both as constructor arguments.
\<close>

datatype js_error =
    SyntaxError
  | KVError
  | RotationError
  | SlackAPIError string
  | TypeError
  | ConfigError string
  | AuthorizeError js_error InstallationStoreQuery

text \<open>
  An \<open>async\<close> function runs against a mutable state \<open>'s\<close> and either resolves to a value
  or rejects with an error; the state reached is returned in both cases, since writes made
  before a rejection stay made. \<open>await m f\<close> is \<open>const x = await m; f x\<close>.
\<close>

type_synonym ('s, 'a) promise = "'s \<Rightarrow> (js_error + 'a) \<times> 's"

definition resolve :: "'a \<Rightarrow> ('s, 'a) promise" where
  "resolve x s = (Inr x, s)"

definition reject :: "js_error \<Rightarrow> ('s, 'a) promise" where
  "reject e s = (Inl e, s)"

definition await :: "('s, 'a) promise \<Rightarrow> ('a \<Rightarrow> ('s, 'b) promise) \<Rightarrow> ('s, 'b) promise" where
  "await m f s = (case m s of (Inl e, s') \<Rightarrow> (Inl e, s') | (Inr x, s') \<Rightarrow> f x s')"

definition try_catch :: "('s, 'a) promise \<Rightarrow> (js_error \<Rightarrow> ('s, 'a) promise) \<Rightarrow> ('s, 'a) promise" where
  "try_catch m h s = (case m s of (Inl e, s') \<Rightarrow> h e s' | (Inr x, s') \<Rightarrow> (Inr x, s'))"

text \<open>A call that touches no namespace: it resolves or rejects and leaves the state alone.\<close>

definition external :: "js_error + 'a \<Rightarrow> ('s, 'a) promise" where
  "external r s = (r, s)"

section \<open>The key-value namespace\<close>

text \<open>
  The Workers KV namespace is a collaborator the store is handed. It is modelled as the
  list of its entries (a key is bound to the value of its first pair), the page size of
  its \<open>list\<close> operation, the calls it rejects, and the calls made so far, which lets
  a property speak about the calls a method issues.

  \<open>list\<close> returns the names under a prefix one page at a time. A page that is not the
  last carries a cursor; the cursor is opaque to the caller, and here it is the number of
  names already returned, written in unary.
\<close>

datatype kv_call =
    KVGet string
  | KVPut string string "int option"
  | KVDelete string
  | KVList string "string option"

record KVNamespaceListKey =
  name :: string

record KVNamespaceListResult =
  keys :: "KVNamespaceListKey list"
  list_complete :: bool
  cursor :: "string option"

record KVNamespace =
  entries :: "(string \<times> string) list"
  list_limit :: nat
  rejects :: "kv_call \<Rightarrow> bool"
  calls :: "kv_call list"

definition logged :: "kv_call \<Rightarrow> KVNamespace \<Rightarrow> KVNamespace" where
  "logged c ns = ns\<lparr>calls := calls ns @ [c]\<rparr>"

definition kv_get :: "string \<Rightarrow> (KVNamespace, string option) promise" where
  "kv_get key ns =
     (if rejects ns (KVGet key) then (Inl KVError, logged (KVGet key) ns)
      else (Inr (map_of (entries ns) key), logged (KVGet key) ns))"

definition kv_put :: "string \<Rightarrow> string \<Rightarrow> int option \<Rightarrow> (KVNamespace, unit) promise" where
  "kv_put key v expirationTtl ns =
     (if rejects ns (KVPut key v expirationTtl) then (Inl KVError, logged (KVPut key v expirationTtl) ns)
      else (Inr (), logged (KVPut key v expirationTtl)
                      (ns\<lparr>entries := (key, v) # filter (\<lambda>e. fst e \<noteq> key) (entries ns)\<rparr>)))"

definition kv_delete :: "string \<Rightarrow> (KVNamespace, unit) promise" where
  "kv_delete key ns =
     (if rejects ns (KVDelete key) then (Inl KVError, logged (KVDelete key) ns)
      else (Inr (), logged (KVDelete key)
                      (ns\<lparr>entries := filter (\<lambda>e. fst e \<noteq> key) (entries ns)\<rparr>)))"

definition names_under :: "string \<Rightarrow> KVNamespace \<Rightarrow> string list" where
  "names_under p ns = filter (prefix p) (remdups (map fst (entries ns)))"

definition kv_list :: "string \<Rightarrow> string option \<Rightarrow> (KVNamespace, KVNamespaceListResult) promise" where
  "kv_list p c ns =
     (if rejects ns (KVList p c) then (Inl KVError, logged (KVList p c) ns)
      else
        (let start = (case c of None \<Rightarrow> 0 | Some t \<Rightarrow> length t);
             rest = drop start (names_under p ns);
             last_page = (length rest \<le> list_limit ns)
         in (Inr \<lparr> keys = map (\<lambda>n. \<lparr> name = n \<rparr>) (take (list_limit ns) rest),
                   list_complete = last_page,
                   cursor = (if last_page then None
                             else Some (replicate (start + list_limit ns) (CHR ''c''))) \<rparr>,
             logged (KVList p c) ns)))"

section \<open>API responses and their headers\<close>

text \<open>
  A \<open>Headers\<close> object holds the list of (name, value) pairs appended to it. Names match
  without regard to case. \<open>get\<close> joins the values of one name with a comma and a space.
  \<open>entries\<close> goes through the lower-cased names in ascending order, each once, and yields
  the name with its joined value; the name \<open>set-cookie\<close> is the exception, for which it
  yields one pair for each value, in order.
\<close>

datatype Headers = HeaderList (header_list: "(string \<times> string) list")

definition toLowerCase_char :: "char \<Rightarrow> char" where
  "toLowerCase_char c =
     (let n = (of_char c :: nat) in if 65 \<le> n \<and> n \<le> 90 then char_of (n + 32) else c)"

definition toLowerCase :: "string \<Rightarrow> string" where
  "toLowerCase s = map toLowerCase_char s"

fun join_values :: "string list \<Rightarrow> string" where
  "join_values [] = []"
| "join_values [v] = v"
| "join_values (v # w # vs) = v @ '', '' @ join_values (w # vs)"

definition values_of :: "Headers \<Rightarrow> string \<Rightarrow> string list" where
  "values_of h n = map snd (filter (\<lambda>e. toLowerCase (fst e) = toLowerCase n) (header_list h))"

definition Headers_get :: "Headers \<Rightarrow> string \<Rightarrow> string option" where
  "Headers_get h n = (if values_of h n = [] then None else Some (join_values (values_of h n)))"

definition entries_of_name :: "Headers \<Rightarrow> string \<Rightarrow> (string \<times> string) list" where
  "entries_of_name h n =
     (if n = ''set-cookie'' then map (\<lambda>v. (n, v)) (values_of h n)
      else [(n, join_values (values_of h n))])"

definition Headers_entries :: "Headers \<Rightarrow> (string \<times> string) list" where
  "Headers_entries h =
     concat (map (entries_of_name h)
               (sort (remdups (map (\<lambda>e. toLowerCase (fst e)) (header_list h)))))"

definition Headers_append :: "Headers \<Rightarrow> string \<times> string \<Rightarrow> Headers" where
  "Headers_append h e = HeaderList (header_list h @ [e])"

text \<open>
  A plain object with string values is the list of its properties in insertion order;
  \<open>Object.fromEntries\<close> assigns the entries in turn, so a repeated key keeps its place and
  takes the later value. \<open>new Headers(obj)\<close> is a new, empty \<open>Headers\<close> object to
  which the properties are appended in order.
\<close>

fun assign :: "(string \<times> string) list \<Rightarrow> string \<times> string \<Rightarrow> (string \<times> string) list" where
  "assign [] e = [e]"
| "assign (p # ps) e = (if fst p = fst e then e # ps else p # assign ps e)"

definition Object_fromEntries :: "(string \<times> string) list \<Rightarrow> (string \<times> string) list" where
  "Object_fromEntries es = foldl assign [] es"


definition new_Headers :: "(string \<times> string) list \<Rightarrow> Headers" where
  "new_Headers obj = foldl Headers_append (HeaderList []) obj"

text \<open>
  The response of \<open>auth.test\<close>, with the fields the store reads. The type of the headers
  field is the parameter: \<open>Headers\<close> for a response, a plain object for its serialisable
  form.
\<close>

record 'h SlackAPIResponse =
  ok :: bool
  error :: "string option"
  team :: "string option"
  url :: "string option"
  bot_id :: "string option"
  auth_user_id :: "string option"
  user :: "string option"
  headers :: 'h

type_synonym AuthTestResponse = "Headers SlackAPIResponse"
type_synonym SerializableSlackAPIResponse = "(string \<times> string) list SlackAPIResponse"

definition toSerializableSlackAPIResponse :: "AuthTestResponse \<Rightarrow> SerializableSlackAPIResponse" where
  "toSerializableSlackAPIResponse response =
     \<lparr> ok = ok response, error = error response, team = team response, url = url response,
       bot_id = bot_id response, auth_user_id = auth_user_id response, user = user response,
       headers = Object_fromEntries (Headers_entries (headers response)) \<rparr>"

definition fromSerializableSlackAPIResponse :: "SerializableSlackAPIResponse \<Rightarrow> AuthTestResponse" where
  "fromSerializableSlackAPIResponse response =
     (let headers' = new_Headers (headers response)
      in \<lparr> ok = ok response, error = error response, team = team response, url = url response,
           bot_id = bot_id response, auth_user_id = auth_user_id response, user = user response,
           headers = headers' \<rparr>)"

section \<open>The installation store\<close>

text \<open>
  The parts of the runtime the store calls but does not define are taken as parameters:
  \<open>JSON.parse\<close> and \<open>JSON.stringify\<close> at the two types they are used at, the token
  rotator, and the \<open>auth.test\<close> method of an API client (a function of the token the
  client was built with). Each either returns or throws.
\<close>

record TokenSet =
  access_token :: "string option"
  refresh_token :: "string option"
  token_expires_at :: "int option"

record RotationTargets =
  rot_bot :: "TokenSet option"
  rot_user :: "TokenSet option"

record Runtime =
  JSON_parse_installation :: "string \<Rightarrow> js_error + Installation"
  JSON_stringify_installation :: "Installation \<Rightarrow> string"
  JSON_parse_response :: "string \<Rightarrow> js_error + SerializableSlackAPIResponse"
  JSON_stringify_response :: "SerializableSlackAPIResponse \<Rightarrow> string"
  performRotation :: "RotationTargets \<Rightarrow> js_error + RotationTargets option"
  auth_test :: "string option \<Rightarrow> js_error + AuthTestResponse"

record SlackOAuthEnv =
  SLACK_CLIENT_ID :: string
  SLACK_USER_TOKEN_RESOLUTION :: "string option"

text \<open>
  The private fields of a store: the immutable ones in \<open>KVInstallationStore\<close>, the two
  namespaces it was handed in \<open>Namespaces\<close>, the state every method runs against.
\<close>

record KVInstallationStore =
  env :: SlackOAuthEnv
  runtime :: Runtime
  authTestCacheEnabled :: bool
  authTestCacheExpirationSecs :: int

record Namespaces =
  storage :: KVNamespace
  authTestCacheNamespace :: "KVNamespace option"

record KVInstallationStoreOptions =
  opt_authTestCacheEnabled :: "bool option"
  opt_authTestCacheExpirationSecs :: "int option"
  opt_authTestCacheStorage :: "KVNamespace option"

definition new_KVInstallationStore ::
  "SlackOAuthEnv \<Rightarrow> Runtime \<Rightarrow> KVNamespace \<Rightarrow> KVInstallationStoreOptions \<Rightarrow>
   js_error + KVInstallationStore \<times> Namespaces" where
  "new_KVInstallationStore e rt namespace options =
     (if truthy_flag (opt_authTestCacheEnabled options) \<and> opt_authTestCacheStorage options = None
      then Inl (ConfigError ''authTestCacheStorage must be provided when authTestCacheEnabled is true'')
      else Inr (\<lparr> env = e, runtime = rt,
                  authTestCacheEnabled =
                    (case opt_authTestCacheEnabled options of None \<Rightarrow> False | Some b \<Rightarrow> b),
                  authTestCacheExpirationSecs =
                    (case opt_authTestCacheExpirationSecs options of None \<Rightarrow> 10 * 60 | Some n \<Rightarrow> n) \<rparr>,
                \<lparr> storage = namespace, authTestCacheNamespace = opt_authTestCacheStorage options \<rparr>))"

text \<open>A call on \<open>this.#storage\<close>, and one on the cache namespace when there is one.\<close>

definition on_storage :: "(KVNamespace, 'a) promise \<Rightarrow> (Namespaces, 'a) promise" where
  "on_storage m w = (case m (storage w) of (r, ns) \<Rightarrow> (r, w\<lparr>storage := ns\<rparr>))"

definition on_cache :: "(KVNamespace, 'a) promise \<Rightarrow> (Namespaces, 'a) promise" where
  "on_cache m w =
     (case authTestCacheNamespace w of
        None \<Rightarrow> (Inl TypeError, w)
      | Some c \<Rightarrow> (case m c of (r, ns) \<Rightarrow> (r, w\<lparr>authTestCacheNamespace := Some ns\<rparr>)))"

definition save :: "KVInstallationStore \<Rightarrow> Installation \<Rightarrow> (Namespaces, unit) promise" where
  "save this installation =
     await (on_storage (kv_put (toBotInstallationKey (SLACK_CLIENT_ID (env this)) installation)
                          (JSON_stringify_installation (runtime this) installation) None)) (\<lambda>_.
     on_storage (kv_put (toUserInstallationKey (SLACK_CLIENT_ID (env this)) installation)
                   (JSON_stringify_installation (runtime this) installation) None))"

definition findBotInstallation ::
  "KVInstallationStore \<Rightarrow> InstallationStoreQuery \<Rightarrow> (Namespaces, Installation option) promise" where
  "findBotInstallation this query =
     await (on_storage (kv_get (toBotInstallationQuery (SLACK_CLIENT_ID (env this)) query))) (\<lambda>storedString.
     if truthy storedString
     then await (external (JSON_parse_installation (runtime this) (the storedString))) (\<lambda>i. resolve (Some i))
     else resolve None)"

definition findUserInstallation ::
  "KVInstallationStore \<Rightarrow> InstallationStoreQuery \<Rightarrow> (Namespaces, Installation option) promise" where
  "findUserInstallation this query =
     await (on_storage (kv_get (toUserInstallationQuery (SLACK_CLIENT_ID (env this)) query))) (\<lambda>storedString.
     if truthy storedString
     then await (external (JSON_parse_installation (runtime this) (the storedString))) (\<lambda>i. resolve (Some i))
     else resolve None)"

definition deleteBotInstallation ::
  "KVInstallationStore \<Rightarrow> InstallationStoreQuery \<Rightarrow> (Namespaces, unit) promise" where
  "deleteBotInstallation this query =
     on_storage (kv_delete (toBotInstallationQuery (SLACK_CLIENT_ID (env this)) query))"

definition deleteUserInstallation ::
  "KVInstallationStore \<Rightarrow> InstallationStoreQuery \<Rightarrow> (Namespaces, unit) promise" where
  "deleteUserInstallation this query =
     on_storage (kv_delete (toUserInstallationQuery (SLACK_CLIENT_ID (env this)) query))"

subsection \<open>deleteAll\<close>

text \<open>
  The \<open>while (cursor)\<close> loop of \<open>deleteAll\<close>. Whether it ends depends on the pages the
  namespace returns, so the function is partial: \<open>None\<close> is a loop that never ends.
\<close>

partial_function (option) list_pages ::
  "string \<Rightarrow> string option \<Rightarrow> string list \<Rightarrow> Namespaces \<Rightarrow> ((js_error + string list) \<times> Namespaces) option" where
  "list_pages p c acc w =
     (if truthy c
      then (case on_storage (kv_list p c) w of
              (Inl e, w') \<Rightarrow> Some (Inl e, w')
            | (Inr response, w') \<Rightarrow>
                list_pages p (if list_complete response then None else cursor response)
                  (acc @ map name (keys response)) w')
      else Some (Inr acc, w))"

declare list_pages.simps [code]

text \<open>The \<open>for (const key of keys)\<close> loop: one \<open>delete\<close> per collected name, in order.\<close>

fun delete_each :: "string list \<Rightarrow> (Namespaces, unit) promise" where
  "delete_each [] = resolve ()"
| "delete_each (key # rest) = await (on_storage (kv_delete key)) (\<lambda>_. delete_each rest)"

definition deleteAll ::
  "KVInstallationStore \<Rightarrow> InstallationStoreQuery \<Rightarrow> Namespaces \<Rightarrow> ((js_error + unit) \<times> Namespaces) option" where
  "deleteAll this query w =
     (let clientId = SLACK_CLIENT_ID (env this) in
      if \<not> truthy (enterpriseId query) \<and> \<not> truthy (teamId query) then Some (Inr (), w)
      else
        (let e = or_else (enterpriseId query) ''_'';
             p = (if truthy (teamId query) then clientId @ ''/'' @ e @ '':'' @ the (teamId query)
                  else clientId @ ''/'' @ e @ '':'')
         in case on_storage (kv_list p None) w of
              (Inl err, w1) \<Rightarrow> Some (Inl err, w1)
            | (Inr first, w1) \<Rightarrow>
                (case (if \<not> list_complete first
                       then list_pages p (cursor first) (map name (keys first)) w1
                       else Some (Inr (map name (keys first)), w1)) of
                   None \<Rightarrow> None
                 | Some (Inl err, w2) \<Rightarrow> Some (Inl err, w2)
                 | Some (Inr collected, w2) \<Rightarrow> Some (delete_each collected w2))))"

subsection \<open>auth.test and its cache\<close>

definition callAuthTest ::
  "KVInstallationStore \<Rightarrow> string option \<Rightarrow> string option \<Rightarrow> (Namespaces, AuthTestResponse) promise" where
  "callAuthTest this client token w =
     (if truthy token \<and> authTestCacheEnabled this \<and> authTestCacheNamespace w \<noteq> None
      then
        await (on_cache (kv_get (the token))) (\<lambda>cachedResponse.
        if truthy cachedResponse
        then await (external (JSON_parse_response (runtime this) (the cachedResponse)))
               (\<lambda>serializableAuthTestResponse.
                  resolve (fromSerializableSlackAPIResponse serializableAuthTestResponse))
        else
          await (external (auth_test (runtime this) client)) (\<lambda>authTestResponse.
          if ok authTestResponse \<and> \<not> truthy (error authTestResponse)
          then
            (let serializableAuthTestResponse = toSerializableSlackAPIResponse authTestResponse;
                 permanentCacheEnabled = (authTestCacheExpirationSecs this \<le> 0)
             in await (on_cache (kv_put (the token)
                         (JSON_stringify_response (runtime this) serializableAuthTestResponse)
                         (if permanentCacheEnabled then None
                          else Some (authTestCacheExpirationSecs this))))
                  (\<lambda>_. resolve authTestResponse))
          else resolve authTestResponse)) w
      else external (auth_test (runtime this) client) w)"

subsection \<open>toAuthorize\<close>

record SlackRequestContext =
  ctx_isEnterpriseInstall :: "bool option"
  ctx_enterpriseId :: "string option"
  ctx_teamId :: "string option"
  ctx_userId :: "string option"
  ctx_actorEnterpriseId :: "string option"
  ctx_actorTeamId :: "string option"
  ctx_actorUserId :: "string option"

record AuthorizeResult =
  res_enterpriseId :: "string option"
  res_teamId :: "string option"
  res_team :: "string option"
  res_url :: "string option"
  botId :: "string option"
  botUserId :: "string option"
  botToken :: "string option"
  botScopes :: "string list"
  res_userId :: "string option"
  res_user :: "string option"
  userToken :: "string option"
  userScopes :: "string list option"

text \<open>\<open>s.split(",")\<close>.\<close>

fun split_comma :: "string \<Rightarrow> string list" where
  "split_comma [] = [[]]"
| "split_comma (c # cs) =
     (if c = CHR '','' then [] # split_comma cs
      else (case split_comma cs of [] \<Rightarrow> [[c]] | w # ws \<Rightarrow> (c # w) # ws))"

text \<open>
  Lines 143 to 157: rotation of the bot token. The installation found is updated in place
  when the rotator returns new bot tokens, and saved; it is what the rest of the callable
  reads.
\<close>

definition rotate_bot ::
  "KVInstallationStore \<Rightarrow> Installation option \<Rightarrow> (Namespaces, Installation option) promise" where
  "rotate_bot this found =
     (case found of
        None \<Rightarrow> resolve None
      | Some installation \<Rightarrow>
          if truthy (bot_refresh_token installation)
          then
            await (external (performRotation (runtime this)
                     \<lparr> rot_bot = Some \<lparr> access_token = bot_token installation,
                                        refresh_token = bot_refresh_token installation,
                                        token_expires_at = bot_token_expires_at installation \<rparr>,
                       rot_user = None \<rparr>)) (\<lambda>maybeRefreshed.
            case maybeRefreshed of
              None \<Rightarrow> resolve (Some installation)
            | Some refreshed \<Rightarrow>
                (case rot_bot refreshed of
                   None \<Rightarrow> resolve (Some installation)
                 | Some t \<Rightarrow>
                     (let installation' = installation\<lparr> bot_token := access_token t,
                                      bot_refresh_token := refresh_token t,
                                      bot_token_expires_at := token_expires_at t \<rparr>
                      in await (save this installation') (\<lambda>_. resolve (Some installation')))))
          else resolve (Some installation))"

text \<open>Lines 173 to 187: the same for the user token.\<close>

definition rotate_user ::
  "KVInstallationStore \<Rightarrow> Installation option \<Rightarrow> (Namespaces, Installation option) promise" where
  "rotate_user this found =
     (case found of
        None \<Rightarrow> resolve None
      | Some installation \<Rightarrow>
          if truthy (user_refresh_token installation)
          then
            await (external (performRotation (runtime this)
                     \<lparr> rot_bot = None,
                       rot_user = Some \<lparr> access_token = user_token installation,
                                         refresh_token = user_refresh_token installation,
                                         token_expires_at = user_token_expires_at installation \<rparr> \<rparr>)) (\<lambda>maybeRefreshed.
            case maybeRefreshed of
              None \<Rightarrow> resolve (Some installation)
            | Some refreshed \<Rightarrow>
                (case rot_user refreshed of
                   None \<Rightarrow> resolve (Some installation)
                 | Some t \<Rightarrow>
                     (let installation' = installation\<lparr> user_token := access_token t,
                                      user_refresh_token := refresh_token t,
                                      user_token_expires_at := token_expires_at t \<rparr>
                      in await (save this installation') (\<lambda>_. resolve (Some installation')))))
          else resolve (Some installation))"

text \<open>
  The query the callable builds from the request context (lines 135 to 140), and the
  query for the user lookup it builds next (lines 165 to 171).
\<close>

definition query_of :: "SlackRequestContext \<Rightarrow> InstallationStoreQuery" where
  "query_of c =
     \<lparr> enterpriseId = ctx_enterpriseId c, teamId = ctx_teamId c, userId = ctx_userId c,
       isEnterpriseInstall = ctx_isEnterpriseInstall c \<rparr>"

definition userQuery_of :: "KVInstallationStore \<Rightarrow> SlackRequestContext \<Rightarrow> InstallationStoreQuery" where
  "userQuery_of this c =
     (if SLACK_USER_TOKEN_RESOLUTION (env this) \<noteq> Some ''installer''
      then (query_of c)\<lparr> enterpriseId := ctx_actorEnterpriseId c, teamId := ctx_actorTeamId c,
                          userId := ctx_actorUserId c \<rparr>
      else query_of c)"

text \<open>Lines 188 to 191: \<open>auth.test\<close> for the user token, when a user installation was found.\<close>

definition user_auth_test ::
  "KVInstallationStore \<Rightarrow> string option \<Rightarrow> Installation option \<Rightarrow>
   (Namespaces, AuthTestResponse option) promise" where
  "user_auth_test this botClient found =
     (case found of
        None \<Rightarrow> resolve None
      | Some installation \<Rightarrow>
          await (callAuthTest this botClient (user_token installation)) (\<lambda>r. resolve (Some r)))"

text \<open>The body of the \<open>try\<close> block (lines 142 to 208).\<close>

definition authorize_body ::
  "KVInstallationStore \<Rightarrow> SlackRequestContext \<Rightarrow> InstallationStoreQuery \<Rightarrow>
   (Namespaces, AuthorizeResult) promise" where
  "authorize_body this c query =
     await (findBotInstallation this query) (\<lambda>found.
     await (rotate_bot this found) (\<lambda>bot_inst.
     let botClient = (case bot_inst of None \<Rightarrow> None | Some b \<Rightarrow> bot_token b) in
     await (callAuthTest this botClient (case bot_inst of None \<Rightarrow> None | Some b \<Rightarrow> bot_token b)) (\<lambda>botAuthTest.
     let scopes = (case Headers_get (headers botAuthTest) ''x-oauth-scopes'' of
                     Some v \<Rightarrow> split_comma v
                   | None \<Rightarrow> (case (case bot_inst of None \<Rightarrow> None | Some b \<Rightarrow> bot_scopes b) of
                                 Some ss \<Rightarrow> ss
                               | None \<Rightarrow> []));
         userQuery = userQuery_of this c in
     await (findUserInstallation this query) (\<lambda>found_user.
     await (rotate_user this found_user) (\<lambda>user_inst.
     await (user_auth_test this botClient user_inst) (\<lambda>userAuthTest.
     resolve
       \<lparr> res_enterpriseId = (case bot_inst of None \<Rightarrow> None | Some b \<Rightarrow> enterprise_id b),
         res_teamId = (case bot_inst of None \<Rightarrow> None | Some b \<Rightarrow> team_id b),
         res_team = team botAuthTest,
         res_url = url botAuthTest,
         botId = bot_id botAuthTest,
         botUserId = auth_user_id botAuthTest,
         botToken = (case bot_inst of None \<Rightarrow> None | Some b \<Rightarrow> bot_token b),
         botScopes = scopes,
         res_userId = (case user_inst of None \<Rightarrow> None | Some u \<Rightarrow> user_id u),
         res_user = (case userAuthTest of None \<Rightarrow> None | Some r \<Rightarrow> user r),
         userToken = (case user_inst of None \<Rightarrow> None | Some u \<Rightarrow> user_token u),
         userScopes = (case user_inst of None \<Rightarrow> None | Some u \<Rightarrow> user_scopes u) \<rparr>))))))"

definition toAuthorize ::
  "KVInstallationStore \<Rightarrow> SlackRequestContext \<Rightarrow> (Namespaces, AuthorizeResult) promise" where
  "toAuthorize this c =
     (let query = query_of c
      in try_catch (authorize_body this c query) (\<lambda>e. reject (AuthorizeError e query)))"

text \<open>
  The prefix \<open>deleteAll\<close> lists under (lines 115 and 116), the names a list of calls
  deleted, and the calls that are \<open>list\<close> calls under one prefix.
\<close>

definition scoped_prefix :: "KVInstallationStore \<Rightarrow> InstallationStoreQuery \<Rightarrow> string" where
  "scoped_prefix this query =
     (if truthy (teamId query)
      then SLACK_CLIENT_ID (env this) @ ''/'' @ or_else (enterpriseId query) ''_'' @ '':'' @ the (teamId query)
      else SLACK_CLIENT_ID (env this) @ ''/'' @ or_else (enterpriseId query) ''_'' @ '':'')"

fun deleted_keys :: "kv_call list \<Rightarrow> string list" where
  "deleted_keys [] = []"
| "deleted_keys (KVDelete k # cs) = k # deleted_keys cs"
| "deleted_keys (c # cs) = deleted_keys cs"

definition listing_calls :: "string \<Rightarrow> kv_call list \<Rightarrow> bool" where
  "listing_calls p cs = list_all (\<lambda>c. case c of KVList p' _ \<Rightarrow> p' = p | _ \<Rightarrow> False) cs"

section \<open>Conditions on the collaborators\<close>

text \<open>
  The namespaces answer: neither rejects a call, and when the cache is on, what it holds
  under any key is text that \<open>JSON.parse\<close> reads.
\<close>

definition namespaces_answer :: "KVInstallationStore \<Rightarrow> Namespaces \<Rightarrow> bool" where
  "namespaces_answer this w =
     ((\<forall>c. \<not> rejects (storage w) c) \<and>
      (\<forall>ns. authTestCacheNamespace w = Some ns \<longrightarrow>
         (\<forall>c. \<not> rejects ns c) \<and>
         (authTestCacheEnabled this \<longrightarrow>
            (\<forall>k s. map_of (entries ns) k = Some s \<longrightarrow>
               (\<exists>x. JSON_parse_response (runtime this) s = Inr x)))))"

text \<open>\<open>maybeRefreshed && maybeRefreshed.bot\<close> and \<open>maybeRefreshed && maybeRefreshed.user\<close>.\<close>

definition refreshed_bot :: "RotationTargets option \<Rightarrow> TokenSet option" where
  "refreshed_bot maybeRefreshed = (case maybeRefreshed of None \<Rightarrow> None | Some m \<Rightarrow> rot_bot m)"

text \<open>The keys a list of calls wrote with \<open>put\<close>.\<close>

fun put_keys :: "kv_call list \<Rightarrow> string list" where
  "put_keys [] = []"
| "put_keys (KVPut k v t # cs) = k # put_keys cs"
| "put_keys (c # cs) = put_keys cs"

section \<open>A store with contents\<close>

text \<open>
  A namespace with six keys under \<open>C/_:T1\<close>, listed two to a page, and three keys
  elsewhere. The runtime reads and prints JSON for the payloads that occur here, rejects
  the malformed payload \<open>{\<close>, and has a rotator that never rotates.
\<close>

definition demo_payload_U1 :: string where
  \<open>demo_payload_U1 = ''{"team_id":"T1","user_id":"U1","bot_token":"xoxb-1","bot_refresh_token":"xoxe-1","user_token":"xoxp-U1"}''\<close>

definition demo_payload_U2 :: string where
  \<open>demo_payload_U2 = ''{"team_id":"T1","user_id":"U2","bot_token":"xoxb-1","bot_refresh_token":"xoxe-1","user_token":"xoxp-U2"}''\<close>

definition demo_storage :: KVNamespace where
  "demo_storage =
     \<lparr> entries = [(''C/_:T1'', demo_payload_U1), (''C/_:T1:U1'', demo_payload_U1),
                  (''C/_:T1:U2'', demo_payload_U2), (''C/_:T10'', ''{}''), (''C/_:T10:U7'', ''{}''),
                  (''C/_:T11'', ''{}''), (''C/_:T2'', ''{''), (''C/E1:T1'', ''{}''), (''D/_:T1'', ''{}'')],
       list_limit = 2, rejects = (\<lambda>_. False), calls = [] \<rparr>"

definition demo_namespaces :: Namespaces where
  "demo_namespaces =
     \<lparr> storage = demo_storage,
       authTestCacheNamespace = Some \<lparr> entries = [], list_limit = 2, rejects = (\<lambda>_. False), calls = [] \<rparr> \<rparr>"

definition demo_context :: SlackRequestContext where
  "demo_context =
     \<lparr> ctx_isEnterpriseInstall = None, ctx_enterpriseId = None, ctx_teamId = Some ''T1'',
       ctx_userId = Some ''U1'', ctx_actorEnterpriseId = None, ctx_actorTeamId = Some ''T1'',
       ctx_actorUserId = Some ''U2'' \<rparr>"

definition query_team :: "string \<Rightarrow> InstallationStoreQuery" where
  "query_team t = \<lparr> enterpriseId = None, teamId = Some t, userId = None, isEnterpriseInstall = None \<rparr>"

definition demo_installation_U1 :: Installation where
  "demo_installation_U1 =
     \<lparr> enterprise_id = None, team_id = Some ''T1'', user_id = Some ''U1'', is_enterprise_install = None,
       bot_token = Some ''xoxb-1'', bot_refresh_token = Some ''xoxe-1'', bot_token_expires_at = None,
       bot_scopes = None, user_token = Some ''xoxp-U1'', user_refresh_token = None,
       user_token_expires_at = None, user_scopes = None \<rparr>"

definition demo_installation_U2 :: Installation where
  "demo_installation_U2 = demo_installation_U1\<lparr> user_id := Some ''U2'', user_token := Some ''xoxp-U2'' \<rparr>"

definition empty_installation :: Installation where
  "empty_installation =
     \<lparr> enterprise_id = None, team_id = None, user_id = None, is_enterprise_install = None,
       bot_token = None, bot_refresh_token = None, bot_token_expires_at = None,
       bot_scopes = None, user_token = None, user_refresh_token = None,
       user_token_expires_at = None, user_scopes = None \<rparr>"

definition demo_response :: AuthTestResponse where
  "demo_response =
     \<lparr> ok = True, error = None, team = Some ''Acme'', url = Some ''https://acme.slack.com/'',
       bot_id = Some ''B1'', auth_user_id = Some ''UB1'', user = Some ''acme-bot'',
       headers = HeaderList [(''X-OAuth-Scopes'', ''chat:write,commands'')] \<rparr>"

definition demo_failed_response :: AuthTestResponse where
  "demo_failed_response =
     \<lparr> ok = False, error = Some ''invalid_auth'', team = None, url = None,
       bot_id = None, auth_user_id = None, user = None, headers = HeaderList [] \<rparr>"



definition demo_runtime :: Runtime where
  \<open>demo_runtime =
     \<lparr> JSON_parse_installation =
         (\<lambda>s. if s = demo_payload_U1 then Inr demo_installation_U1
              else if s = demo_payload_U2 then Inr demo_installation_U2
              else if s = ''{}'' then Inr empty_installation
              else Inl SyntaxError),
       JSON_stringify_installation =
         (\<lambda>i. if i = demo_installation_U1 then demo_payload_U1
              else if i = demo_installation_U2 then demo_payload_U2
              else ''{}''),
       JSON_parse_response = (\<lambda>s. Inl SyntaxError),
       JSON_stringify_response = (\<lambda>r. ''{"ok":true}''),
       performRotation = (\<lambda>_. Inr None),
       auth_test = (\<lambda>token. if token = Some ''xoxb-1'' then Inr demo_response else Inr demo_failed_response) \<rparr>\<close>

definition demo_store :: KVInstallationStore where
  "demo_store =
     \<lparr> env = \<lparr> SLACK_CLIENT_ID = ''C'', SLACK_USER_TOKEN_RESOLUTION = Some ''actor'' \<rparr>,
       runtime = demo_runtime, authTestCacheEnabled = False, authTestCacheExpirationSecs = 600 \<rparr>"

text \<open>
  The same store with a rotator that answers every request with an object that holds
  neither bot nor user tokens.
\<close>

definition demo_store_empty_rotation :: KVInstallationStore where
  "demo_store_empty_rotation =
     demo_store\<lparr>runtime := demo_runtime\<lparr>performRotation :=
                                  (\<lambda>_. Inr (Some \<lparr> rot_bot = None, rot_user = None \<rparr>))\<rparr>\<rparr>"

text \<open>The same store with the \<open>auth.test\<close> cache switched on.\<close>

definition demo_cached_store :: KVInstallationStore where
  "demo_cached_store = demo_store\<lparr>authTestCacheEnabled := True\<rparr>"

section \<open>Storage keys\<close>

lemma key_symmetry_nonempty_ids:
  "enterprise_id i \<noteq> Some [] \<Longrightarrow>
   toBotInstallationKey c i = toBotInstallationQuery c (queryDerivedFrom i)"
  by (cases "enterprise_id i")
     (simp_all add: toBotInstallationKey_def toBotInstallationQuery_def queryDerivedFrom_def or_else_def)

lemma user_key_symmetry_nonempty_ids:
  "enterprise_id i \<noteq> Some [] \<Longrightarrow> user_id i \<noteq> Some [] \<Longrightarrow>
   toUserInstallationKey c i = toUserInstallationQuery c (queryDerivedFrom i)"
  by (cases "enterprise_id i"; cases "user_id i")
     (simp_all add: toUserInstallationKey_def toUserInstallationQuery_def queryDerivedFrom_def or_else_def)

text \<open>
  Claim C3. The keys \<open>save\<close> writes under and the keys a lookup with the derived query
  reads differ for an installation whose enterprise id or user id is the empty string:
  the key functions replace an id only when it is \<open>undefined\<close> (\<open>??\<close>), the query functions
  whenever it is falsy (\<open>? :\<close>). For the installation of team \<open>T1\<close> with the empty
  enterprise id and the empty user id, the bot key is \<open>C/:T1\<close> and the bot query
  \<open>C/_:T1\<close>, the user key \<open>C/:T1:\<close> and the user query \<open>C/_:T1:_\<close>. (The two lemmas above
  give the symmetry for every other installation.)
\<close>

theorem key_symmetry_fails_on_empty_ids:
  "toBotInstallationKey ''C''
     (empty_installation\<lparr>enterprise_id := Some [], team_id := Some ''T1'', user_id := Some []\<rparr>) = ''C/:T1'' \<and>
   toBotInstallationQuery ''C''
     (queryDerivedFrom (empty_installation\<lparr>enterprise_id := Some [], team_id := Some ''T1'', user_id := Some []\<rparr>))
     = ''C/_:T1'' \<and>
   toUserInstallationKey ''C''
     (empty_installation\<lparr>enterprise_id := Some [], team_id := Some ''T1'', user_id := Some []\<rparr>) = ''C/:T1:'' \<and>
   toUserInstallationQuery ''C''
     (queryDerivedFrom (empty_installation\<lparr>enterprise_id := Some [], team_id := Some ''T1'', user_id := Some []\<rparr>))
     = ''C/_:T1:_''"
  by (simp add: toBotInstallationKey_def toBotInstallationQuery_def toUserInstallationKey_def
        toUserInstallationQuery_def queryDerivedFrom_def or_else_def empty_installation_def)

section \<open>Listing and deleting under a prefix\<close>

lemma names_under_logged [simp]: "names_under p (logged c ns) = names_under p ns"
  by (simp add: names_under_def logged_def)

lemma kv_list_ok:
  "\<not> rejects ns (KVList p c) \<Longrightarrow>
   kv_list p c ns =
     (Inr \<lparr> keys = map (\<lambda>n. \<lparr> name = n \<rparr>)
                   (take (list_limit ns) (drop (case c of None \<Rightarrow> 0 | Some t \<Rightarrow> length t) (names_under p ns))),
            list_complete = (length (names_under p ns) - (case c of None \<Rightarrow> 0 | Some t \<Rightarrow> length t) \<le> list_limit ns),
            cursor = (if length (names_under p ns) - (case c of None \<Rightarrow> 0 | Some t \<Rightarrow> length t) \<le> list_limit ns then None
                      else Some (replicate ((case c of None \<Rightarrow> 0 | Some t \<Rightarrow> length t) + list_limit ns) (CHR ''c''))) \<rparr>,
      logged (KVList p c) ns)"
  by (simp add: kv_list_def Let_def)

lemma list_pages_collects:
  assumes "\<forall>c. \<not> rejects (storage w) c" and "0 < list_limit (storage w)" and "0 < k"
  shows "\<exists>cs. listing_calls p cs \<and>
           list_pages p (Some (replicate k (CHR ''c''))) (take k (names_under p (storage w))) w =
             Some (Inr (names_under p (storage w)),
                   w\<lparr>storage := (storage w)\<lparr>calls := calls (storage w) @ cs\<rparr>\<rparr>)"
  using assms
proof (induction "length (names_under p (storage w)) - k" arbitrary: k w rule: less_induct)
  case less
  let ?ns = "storage w"
  let ?N = "names_under p ?ns"
  let ?L = "list_limit ?ns"
  let ?c = "Some (replicate k (CHR ''c''))"
  let ?w' = "w\<lparr>storage := logged (KVList p ?c) ?ns\<rparr>"
  have nr: "\<not> rejects ?ns (KVList p ?c)" using less.prems by simp
  show ?case
  proof (cases "length ?N - k \<le> ?L")
    case True
    have "take k ?N @ take ?L (drop k ?N) = ?N"
      using True by simp
    then have "list_pages p ?c (take k ?N) w = Some (Inr ?N, ?w')"
      using True less.prems nr
      by (subst list_pages.simps, subst list_pages.simps)
         (simp add: on_storage_def kv_list_ok comp_def)
    moreover have "?w' = w\<lparr>storage := ?ns\<lparr>calls := calls ?ns @ [KVList p ?c]\<rparr>\<rparr>"
      by (simp add: logged_def)
    moreover have "listing_calls p [KVList p ?c]" by (simp add: listing_calls_def)
    ultimately show ?thesis by metis
  next
    case False
    have acc: "take k ?N @ take ?L (drop k ?N) = take (k + ?L) ?N"
      by (simp add: take_add)
    have nu: "names_under p (storage ?w') = ?N" by simp
    have "\<exists>cs. listing_calls p cs \<and>
           list_pages p (Some (replicate (k + ?L) (CHR ''c''))) (take (k + ?L) (names_under p (storage ?w'))) ?w' =
             Some (Inr (names_under p (storage ?w')),
                   ?w'\<lparr>storage := (storage ?w')\<lparr>calls := calls (storage ?w') @ cs\<rparr>\<rparr>)"
    proof (rule less.hyps)
      show "length (names_under p (storage ?w')) - (k + ?L) < length ?N - k"
        unfolding nu using False less.prems by (simp add: logged_def)
      show "\<forall>c. \<not> rejects (storage ?w') c" using less.prems by (simp add: logged_def)
      show "0 < list_limit (storage ?w')" using less.prems by (simp add: logged_def)
      show "0 < k + ?L" using less.prems by simp
    qed
    then obtain cs where cs: "listing_calls p cs"
      and rec: "list_pages p (Some (replicate (k + ?L) (CHR ''c''))) (take (k + ?L) ?N) ?w' =
             Some (Inr ?N, ?w'\<lparr>storage := (storage ?w')\<lparr>calls := calls (storage ?w') @ cs\<rparr>\<rparr>)"
      unfolding nu by (auto simp add: logged_def)
    have "list_pages p ?c (take k ?N) w =
            list_pages p (Some (replicate (k + ?L) (CHR ''c''))) (take (k + ?L) ?N) ?w'"
      using False less.prems nr acc
      by (subst list_pages.simps) (simp add: on_storage_def kv_list_ok comp_def)
    moreover have "?w'\<lparr>storage := (storage ?w')\<lparr>calls := calls (storage ?w') @ cs\<rparr>\<rparr> =
                   w\<lparr>storage := ?ns\<lparr>calls := calls ?ns @ (KVList p ?c # cs)\<rparr>\<rparr>"
      by (simp add: logged_def)
    moreover have "listing_calls p (KVList p ?c # cs)" using cs by (simp add: listing_calls_def)
    ultimately show ?thesis using rec by metis
  qed
qed


lemma delete_each_ok:
  "\<forall>c. \<not> rejects (storage w) c \<Longrightarrow>
   delete_each ks w =
     (Inr (), w\<lparr>storage := (storage w)\<lparr>entries := filter (\<lambda>e. fst e \<notin> set ks) (entries (storage w)),
                                         calls := calls (storage w) @ map KVDelete ks\<rparr>\<rparr>)"
proof (induction ks arbitrary: w)
  case Nil
  then show ?case by (simp add: resolve_def)
next
  case (Cons k ks)
  let ?w1 = "w\<lparr>storage := logged (KVDelete k) ((storage w)\<lparr>entries := filter (\<lambda>e. fst e \<noteq> k) (entries (storage w))\<rparr>)\<rparr>"
  have step: "on_storage (kv_delete k) w = (Inr (), ?w1)"
    using Cons.prems by (simp add: on_storage_def kv_delete_def)
  have "\<forall>c. \<not> rejects (storage ?w1) c" using Cons.prems by (simp add: logged_def)
  from Cons.IH[OF this] step show ?case
    by (simp add: await_def logged_def conj_commute)
qed

lemma set_names_under: "set (names_under p ns) = {k \<in> fst ` set (entries ns). prefix p k}"
  by (auto simp add: names_under_def)

lemma distinct_names_under: "distinct (names_under p ns)"
  by (simp add: names_under_def)

lemma deleted_keys_append: "deleted_keys (xs @ ys) = deleted_keys xs @ deleted_keys ys"
  by (induction xs rule: deleted_keys.induct) simp_all

lemma deleted_keys_map_KVDelete: "deleted_keys (map KVDelete ks) = ks"
  by (induction ks) simp_all

lemma deleted_keys_listing: "listing_calls p cs \<Longrightarrow> deleted_keys cs = []"
  by (induction cs rule: deleted_keys.induct) (simp_all add: listing_calls_def)

lemma deleteAll_scoped:
  assumes scoped: "truthy (enterpriseId q) \<or> truthy (teamId q)"
    and ok: "\<forall>c. \<not> rejects (storage w) c" and lim: "0 < list_limit (storage w)"
  shows "\<exists>cs. listing_calls (scoped_prefix this q) cs \<and>
           deleteAll this q w =
             Some (Inr (),
                   w\<lparr>storage := (storage w)
                        \<lparr>entries := filter (\<lambda>e. \<not> prefix (scoped_prefix this q) (fst e)) (entries (storage w)),
                         calls := calls (storage w) @ cs @ map KVDelete (names_under (scoped_prefix this q) (storage w))\<rparr>\<rparr>)"
proof -
  let ?p = "scoped_prefix this q"
  let ?ns = "storage w"
  let ?N = "names_under ?p ?ns"
  let ?L = "list_limit ?ns"
  let ?w1 = "w\<lparr>storage := logged (KVList ?p None) ?ns\<rparr>"
  have first: "on_storage (kv_list ?p None) w =
      (Inr \<lparr> keys = map (\<lambda>n. \<lparr> name = n \<rparr>) (take ?L ?N), list_complete = (length ?N \<le> ?L),
             cursor = (if length ?N \<le> ?L then None else Some (replicate ?L (CHR ''c''))) \<rparr>, ?w1)"
    using ok by (simp add: on_storage_def kv_list_ok)
  have ok1: "\<forall>c. \<not> rejects (storage ?w1) c" and lim1: "0 < list_limit (storage ?w1)"
    using ok lim by (simp_all add: logged_def)
  have nu: "names_under ?p (storage ?w1) = ?N" by simp
  have collected: "\<exists>cs. listing_calls ?p cs \<and>
      (if \<not> length ?N \<le> ?L then list_pages ?p (Some (replicate ?L (CHR ''c''))) (take ?L ?N) ?w1
       else Some (Inr (take ?L ?N), ?w1)) =
      Some (Inr ?N, w\<lparr>storage := ?ns\<lparr>calls := calls ?ns @ cs\<rparr>\<rparr>)"
  proof (cases "length ?N \<le> ?L")
    case True
    then show ?thesis
      by (intro exI[of _ "[KVList ?p None]"]) (simp add: listing_calls_def logged_def)
  next
    case False
    from list_pages_collects[OF ok1 lim1 lim, of ?p] obtain cs where
      cs: "listing_calls ?p cs" and
      lp: "list_pages ?p (Some (replicate ?L (CHR ''c''))) (take ?L ?N) ?w1 =
             Some (Inr ?N, ?w1\<lparr>storage := (storage ?w1)\<lparr>calls := calls (storage ?w1) @ cs\<rparr>\<rparr>)"
      unfolding nu by auto
    show ?thesis using False lp cs
      by (intro exI[of _ "KVList ?p None # cs"]) (simp add: listing_calls_def logged_def)
  qed
  then obtain cs where cs: "listing_calls ?p cs" and
    coll: "(if \<not> length ?N \<le> ?L then list_pages ?p (Some (replicate ?L (CHR ''c''))) (take ?L ?N) ?w1
       else Some (Inr (take ?L ?N), ?w1)) =
      Some (Inr ?N, w\<lparr>storage := ?ns\<lparr>calls := calls ?ns @ cs\<rparr>\<rparr>)"
    by blast
  let ?w2 = "w\<lparr>storage := ?ns\<lparr>calls := calls ?ns @ cs\<rparr>\<rparr>"
  have ok2: "\<forall>c. \<not> rejects (storage ?w2) c" using ok by simp
  have del: "delete_each ?N ?w2 =
     (Inr (), w\<lparr>storage := ?ns\<lparr>entries := filter (\<lambda>e. \<not> prefix ?p (fst e)) (entries ?ns),
                                 calls := calls ?ns @ cs @ map KVDelete ?N\<rparr>\<rparr>)"
  proof -
    have "filter (\<lambda>e. fst e \<notin> set ?N) (entries ?ns) = filter (\<lambda>e. \<not> prefix ?p (fst e)) (entries ?ns)"
      by (rule filter_cong) (auto simp add: set_names_under)
    then show ?thesis using delete_each_ok[OF ok2, of ?N] by simp
  qed
  have "deleteAll this q w = Some (delete_each ?N ?w2)"
    using scoped first coll
    by (auto simp add: deleteAll_def scoped_prefix_def Let_def comp_def)
  then show ?thesis using cs del by auto
qed



text \<open>
  Claim C8. \<open>deleteAll\<close> with a query that has neither an enterprise id nor a team id
  (each absent or the empty string, which the guard treats alike) resolves without an error
  and returns the namespaces as they were: the entries are the same and so is the list of
  calls, so neither \<open>list\<close> nor \<open>delete\<close> was called.
\<close>

theorem deleteAll_unscoped_is_noop:
  "\<not> truthy (enterpriseId q) \<Longrightarrow> \<not> truthy (teamId q) \<Longrightarrow> deleteAll this q w = Some (Inr (), w)"
  by (simp add: deleteAll_def)

text \<open>The empty query, on the store with contents.\<close>

theorem deleteAll_unscoped_is_noop_witness:
  "deleteAll demo_store \<lparr> enterpriseId = None, teamId = None, userId = None, isEnterpriseInstall = None \<rparr>
     demo_namespaces = Some (Inr (), demo_namespaces)
   \<and> calls (storage demo_namespaces) = []"
  using deleteAll_unscoped_is_noop
    [of "\<lparr> enterpriseId = None, teamId = None, userId = None, isEnterpriseInstall = None \<rparr>"
        demo_store demo_namespaces]
  by (simp add: demo_namespaces_def demo_storage_def)

text \<open>
  Claim C2. For a query with a team id \<open>T\<close> (a non-empty string, which is what the guard
  of \<open>deleteAll\<close> takes for a team id) and no enterprise id, on a namespace that rejects no
  call and lists at least one name per page, \<open>deleteAll\<close> resolves, and
  \<^item> the entries left are those whose key does not start with \<open>{clientId}/_:T\<close>;
  \<^item> the keys it called \<open>delete\<close> on are the stored names that start with that prefix,
    each once, whatever the number of pages;
  \<^item> the cache namespace is untouched.
\<close>

theorem deleteAll_deletes_exactly_the_prefix:
  assumes "truthy (teamId q)" and "\<not> truthy (enterpriseId q)"
    and "\<forall>c. \<not> rejects (storage w) c" and "0 < list_limit (storage w)"
  shows "\<exists>w'. deleteAll this q w = Some (Inr (), w') \<and>
           entries (storage w') =
             filter (\<lambda>e. \<not> prefix (SLACK_CLIENT_ID (env this) @ ''/_:'' @ the (teamId q)) (fst e))
               (entries (storage w)) \<and>
           deleted_keys (drop (length (calls (storage w))) (calls (storage w'))) =
             names_under (SLACK_CLIENT_ID (env this) @ ''/_:'' @ the (teamId q)) (storage w) \<and>
           distinct (deleted_keys (drop (length (calls (storage w))) (calls (storage w')))) \<and>
           set (deleted_keys (drop (length (calls (storage w))) (calls (storage w')))) =
             {k \<in> fst ` set (entries (storage w)).
                prefix (SLACK_CLIENT_ID (env this) @ ''/_:'' @ the (teamId q)) k} \<and>
           authTestCacheNamespace w' = authTestCacheNamespace w"
proof -
  have p: "scoped_prefix this q = SLACK_CLIENT_ID (env this) @ ''/_:'' @ the (teamId q)"
    using assms(1,2) by (simp add: scoped_prefix_def or_else_def)
  from deleteAll_scoped[of q w this] assms obtain cs where
    cs: "listing_calls (scoped_prefix this q) cs" and
    d: "deleteAll this q w =
          Some (Inr (),
                w\<lparr>storage := (storage w)
                     \<lparr>entries := filter (\<lambda>e. \<not> prefix (scoped_prefix this q) (fst e)) (entries (storage w)),
                      calls := calls (storage w) @ cs @ map KVDelete (names_under (scoped_prefix this q) (storage w))\<rparr>\<rparr>)"
    by blast
  show ?thesis
    unfolding d p[symmetric]
    by (simp add: deleted_keys_append deleted_keys_map_KVDelete deleted_keys_listing[OF cs]
          distinct_names_under set_names_under)
qed

text \<open>Team \<open>T1\<close> on the store with contents: three pages of two names each.\<close>

theorem deleteAll_deletes_exactly_the_prefix_witness:
  "\<exists>w'. deleteAll demo_store (query_team ''T1'') demo_namespaces = Some (Inr (), w') \<and>
        map fst (entries (storage w')) = [''C/_:T2'', ''C/E1:T1'', ''D/_:T1''] \<and>
        deleted_keys (calls (storage w')) =
          [''C/_:T1'', ''C/_:T1:U1'', ''C/_:T1:U2'', ''C/_:T10'', ''C/_:T10:U7'', ''C/_:T11'']"
proof -
  have h: "truthy (teamId (query_team ''T1''))" "\<not> truthy (enterpriseId (query_team ''T1''))"
    "\<forall>c. \<not> rejects (storage demo_namespaces) c" "0 < list_limit (storage demo_namespaces)"
    by (simp_all add: query_team_def demo_namespaces_def demo_storage_def)
  from deleteAll_deletes_exactly_the_prefix[OF h, of demo_store] obtain w' where
    "deleteAll demo_store (query_team ''T1'') demo_namespaces = Some (Inr (), w')"
    "entries (storage w') =
       filter (\<lambda>e. \<not> prefix (SLACK_CLIENT_ID (env demo_store) @ ''/_:'' @ the (teamId (query_team ''T1''))) (fst e))
         (entries (storage demo_namespaces))"
    "deleted_keys (drop (length (calls (storage demo_namespaces))) (calls (storage w'))) =
       names_under (SLACK_CLIENT_ID (env demo_store) @ ''/_:'' @ the (teamId (query_team ''T1''))) (storage demo_namespaces)"
    by blast
  then show ?thesis
    by (intro exI[of _ w'])
       (simp add: query_team_def demo_namespaces_def demo_storage_def demo_store_def names_under_def)
qed

lemma map_of_filter_fst:
  "map_of (filter (\<lambda>e. \<not> P (fst e)) es) k = (if P k then None else map_of es k)"
  by (induction es) auto

lemma prefix_team_key:
  "prefix T T' \<Longrightarrow> prefix (c @ ''/_:'' @ T') k \<Longrightarrow> prefix (c @ ''/_:'' @ T) k"
  by (auto simp add: prefix_def)

text \<open>
  Claim C10. The prefix \<open>deleteAll\<close> lists under ends with the team id and no separator,
  so it also matches the keys of every team whose id starts with that team id. Whenever
  \<open>T\<close> is a non-empty prefix of \<open>T'\<close>, \<open>deleteAll\<close> for team \<open>T\<close> leaves no entry under a key
  that starts with \<open>{clientId}/_:T'\<close> (the bot key and the user keys of team \<open>T'\<close>), and
  every such key that was stored is among the keys it called \<open>delete\<close> on.
\<close>

theorem deleteAll_reaches_longer_team_ids:
  assumes "T \<noteq> []" and "prefix T T'"
    and "\<forall>c. \<not> rejects (storage w) c" and "0 < list_limit (storage w)"
  shows "\<exists>w'. deleteAll this (query_team T) w = Some (Inr (), w') \<and>
           (\<forall>k. prefix (SLACK_CLIENT_ID (env this) @ ''/_:'' @ T') k \<longrightarrow>
                  map_of (entries (storage w')) k = None \<and>
                  (k \<in> fst ` set (entries (storage w)) \<longrightarrow>
                     k \<in> set (deleted_keys (drop (length (calls (storage w))) (calls (storage w'))))))"
proof -
  let ?q = "query_team T"
  have sc: "truthy (enterpriseId ?q) \<or> truthy (teamId ?q)"
    using assms(1) by (simp add: query_team_def)
  have p: "scoped_prefix this ?q = SLACK_CLIENT_ID (env this) @ ''/_:'' @ T"
    using assms(1) by (simp add: scoped_prefix_def or_else_def query_team_def)
  from deleteAll_scoped[OF sc assms(3,4), of this] obtain cs where
    cs: "listing_calls (scoped_prefix this ?q) cs" and
    d: "deleteAll this ?q w =
          Some (Inr (),
                w\<lparr>storage := (storage w)
                     \<lparr>entries := filter (\<lambda>e. \<not> prefix (scoped_prefix this ?q) (fst e)) (entries (storage w)),
                      calls := calls (storage w) @ cs @ map KVDelete (names_under (scoped_prefix this ?q) (storage w))\<rparr>\<rparr>)"
    by blast
  show ?thesis
    unfolding d
    using prefix_team_key[OF assms(2), of "SLACK_CLIENT_ID (env this)"]
    by (simp add: p map_of_filter_fst deleted_keys_append deleted_keys_map_KVDelete
          deleted_keys_listing[OF cs[unfolded p]] set_names_under)
qed

text \<open>
  Teams \<open>T1\<close> and \<open>T10\<close> on the store with contents: the bot key and the user key of
  \<open>T10\<close> are stored before \<open>deleteAll\<close> for \<open>T1\<close>, and deleted by it.
\<close>

theorem deleteAll_reaches_longer_team_ids_witness:
  "strict_prefix ''T1'' ''T10'' \<and>
   map_of (entries (storage demo_namespaces)) ''C/_:T10'' = Some ''{}'' \<and>
   map_of (entries (storage demo_namespaces)) ''C/_:T10:U7'' = Some ''{}'' \<and>
   (\<exists>w'. deleteAll demo_store (query_team ''T1'') demo_namespaces = Some (Inr (), w') \<and>
         map_of (entries (storage w')) ''C/_:T10'' = None \<and>
         map_of (entries (storage w')) ''C/_:T10:U7'' = None \<and>
         ''C/_:T10'' \<in> set (deleted_keys (calls (storage w'))) \<and>
         ''C/_:T10:U7'' \<in> set (deleted_keys (calls (storage w'))))"
proof -
  have h: "''T1'' \<noteq> []" "prefix ''T1'' ''T10''"
    "\<forall>c. \<not> rejects (storage demo_namespaces) c" "0 < list_limit (storage demo_namespaces)"
    by (simp_all add: demo_namespaces_def demo_storage_def)
  from deleteAll_reaches_longer_team_ids[OF h, of demo_store] obtain w' where
    d: "deleteAll demo_store (query_team ''T1'') demo_namespaces = Some (Inr (), w')" and
    a: "\<And>k. prefix (SLACK_CLIENT_ID (env demo_store) @ ''/_:'' @ ''T10'') k \<Longrightarrow>
             map_of (entries (storage w')) k = None \<and>
             (k \<in> fst ` set (entries (storage demo_namespaces)) \<longrightarrow>
                k \<in> set (deleted_keys (drop (length (calls (storage demo_namespaces))) (calls (storage w')))))"
    by blast
  have "strict_prefix ''T1'' ''T10''" by (simp add: strict_prefix_def)
  moreover have "map_of (entries (storage demo_namespaces)) ''C/_:T10'' = Some ''{}''"
    "map_of (entries (storage demo_namespaces)) ''C/_:T10:U7'' = Some ''{}''"
    by (simp_all add: demo_namespaces_def demo_storage_def)
  moreover from a[of "''C/_:T10''"] a[of "''C/_:T10:U7''"]
  have "map_of (entries (storage w')) ''C/_:T10'' = None \<and>
        map_of (entries (storage w')) ''C/_:T10:U7'' = None \<and>
        ''C/_:T10'' \<in> set (deleted_keys (calls (storage w'))) \<and>
        ''C/_:T10:U7'' \<in> set (deleted_keys (calls (storage w')))"
    by (simp add: demo_store_def demo_namespaces_def demo_storage_def)
  ultimately show ?thesis using d by blast
qed

section \<open>Lookups\<close>

lemma await_resolved: "m s = (Inr x, s') \<Longrightarrow> await m f s = f x s'"
  by (simp add: await_def)

lemma await_rejected: "m s = (Inl e, s') \<Longrightarrow> await m f s = (Inl e, s')"
  by (simp add: await_def)

lemma on_storage_get:
  "\<not> rejects (storage w) (KVGet k) \<Longrightarrow>
   on_storage (kv_get k) w =
     (Inr (map_of (entries (storage w)) k), w\<lparr>storage := logged (KVGet k) (storage w)\<rparr>)"
  by (simp add: on_storage_def kv_get_def)

lemma findBotInstallation_eq:
  "\<not> rejects (storage w) (KVGet (toBotInstallationQuery (SLACK_CLIENT_ID (env this)) q)) \<Longrightarrow>
   findBotInstallation this q w =
     (case map_of (entries (storage w)) (toBotInstallationQuery (SLACK_CLIENT_ID (env this)) q) of
        None \<Rightarrow> Inr None
      | Some s \<Rightarrow> if s = [] then Inr None else map_sum id Some (JSON_parse_installation (runtime this) s),
      w\<lparr>storage := logged (KVGet (toBotInstallationQuery (SLACK_CLIENT_ID (env this)) q)) (storage w)\<rparr>)"
  by (auto simp add: findBotInstallation_def await_def on_storage_get external_def resolve_def
        split: option.splits sum.splits)

lemma findUserInstallation_eq:
  "\<not> rejects (storage w) (KVGet (toUserInstallationQuery (SLACK_CLIENT_ID (env this)) q)) \<Longrightarrow>
   findUserInstallation this q w =
     (case map_of (entries (storage w)) (toUserInstallationQuery (SLACK_CLIENT_ID (env this)) q) of
        None \<Rightarrow> Inr None
      | Some s \<Rightarrow> if s = [] then Inr None else map_sum id Some (JSON_parse_installation (runtime this) s),
      w\<lparr>storage := logged (KVGet (toUserInstallationQuery (SLACK_CLIENT_ID (env this)) q)) (storage w)\<rparr>)"
  by (auto simp add: findUserInstallation_def await_def on_storage_get external_def resolve_def
        split: option.splits sum.splits)

text \<open>
  Claim C4, as stated, fails: a stored payload that cannot be deserialised makes the lookup
  throw. Under the bot key of team \<open>T2\<close> the store with contents holds the text \<open>{\<close>;
  \<open>JSON.parse\<close> rejects it, and \<open>findBotInstallation\<close> rejects with that error.
\<close>

theorem find_unreadable_payload_throws:
  "fst (findBotInstallation demo_store (query_team ''T2'') demo_namespaces) = Inl SyntaxError"
  by (simp add: findBotInstallation_eq demo_namespaces_def demo_storage_def demo_store_def
        demo_runtime_def query_team_def toBotInstallationQuery_def or_else_def
        demo_payload_U1_def demo_payload_U2_def)

text \<open>
  Claim C4, amended. When the namespace answers the \<open>get\<close>, \<open>findBotInstallation\<close> and
  \<open>findUserInstallation\<close> return absent if no value is stored under the derived key or the
  stored value is the empty string, and never throw on missing data; for a non-empty stored
  value they return what \<open>JSON.parse\<close> returns for it, and throw what it throws.
\<close>

theorem find_installation_absent_or_parsed:
  assumes "\<not> rejects (storage w) (KVGet (toBotInstallationQuery (SLACK_CLIENT_ID (env this)) q))"
    and "\<not> rejects (storage w) (KVGet (toUserInstallationQuery (SLACK_CLIENT_ID (env this)) q))"
  shows "fst (findBotInstallation this q w) =
           (case map_of (entries (storage w)) (toBotInstallationQuery (SLACK_CLIENT_ID (env this)) q) of
              None \<Rightarrow> Inr None
            | Some s \<Rightarrow> if s = [] then Inr None
                        else map_sum id Some (JSON_parse_installation (runtime this) s)) \<and>
         fst (findUserInstallation this q w) =
           (case map_of (entries (storage w)) (toUserInstallationQuery (SLACK_CLIENT_ID (env this)) q) of
              None \<Rightarrow> Inr None
            | Some s \<Rightarrow> if s = [] then Inr None
                        else map_sum id Some (JSON_parse_installation (runtime this) s))"
  using assms by (simp add: findBotInstallation_eq findUserInstallation_eq)

text \<open>Team \<open>T9\<close> has no installation in the store with contents: both lookups return absent.\<close>

theorem find_installation_absent_or_parsed_witness:
  "map_of (entries (storage demo_namespaces)) ''C/_:T9'' = None \<and>
   map_of (entries (storage demo_namespaces)) ''C/_:T9:_'' = None \<and>
   fst (findBotInstallation demo_store (query_team ''T9'') demo_namespaces) = Inr None \<and>
   fst (findUserInstallation demo_store (query_team ''T9'') demo_namespaces) = Inr None"
  using find_installation_absent_or_parsed[of demo_namespaces demo_store "query_team ''T9''"]
  by (simp add: demo_namespaces_def demo_storage_def demo_store_def query_team_def
        toBotInstallationQuery_def toUserInstallationQuery_def or_else_def)

section \<open>The auth.test cache\<close>

lemma on_cache_get:
  "authTestCacheNamespace w = Some cache \<Longrightarrow> \<not> rejects cache (KVGet k) \<Longrightarrow>
   on_cache (kv_get k) w =
     (Inr (map_of (entries cache) k), w\<lparr>authTestCacheNamespace := Some (logged (KVGet k) cache)\<rparr>)"
  by (simp add: on_cache_def kv_get_def)

lemma callAuthTest_miss:
  assumes "truthy token" and "authTestCacheEnabled this"
    and "authTestCacheNamespace w = Some cache"
    and "\<not> rejects cache (KVGet (the token))"
    and "\<not> truthy (map_of (entries cache) (the token))"
    and "auth_test (runtime this) client = Inr r"
  shows "callAuthTest this client token w =
           (if ok r \<and> \<not> truthy (error r)
            then await (on_cache (kv_put (the token)
                          (JSON_stringify_response (runtime this) (toSerializableSlackAPIResponse r))
                          (if authTestCacheExpirationSecs this \<le> 0 then None
                           else Some (authTestCacheExpirationSecs this))))
                   (\<lambda>_. resolve r)
                   (w\<lparr>authTestCacheNamespace := Some (logged (KVGet (the token)) cache)\<rparr>)
            else (Inr r, w\<lparr>authTestCacheNamespace := Some (logged (KVGet (the token)) cache)\<rparr>))"
  using assms
  by (simp add: callAuthTest_def await_def on_cache_get external_def resolve_def Let_def)

text \<open>
  Claim C6. With the cache enabled, a token given and no cached response under it, let
  \<open>auth.test\<close> return the response \<open>r\<close>.
  \<^item> If \<open>r\<close> is failed (\<open>ok\<close> is false) or carries an error, \<open>callAuthTest\<close> returns \<open>r\<close>
    and the cache namespace is as before but for the record of the one \<open>get\<close>: the
    entries are the same and no \<open>put\<close> was called.
  \<^item> If the entries of the cache changed, or a \<open>put\<close> was called, then \<open>r\<close> indicates
    success and carries no error.
\<close>

theorem failed_auth_test_is_not_cached:
  assumes "truthy token" and "authTestCacheEnabled this"
    and "authTestCacheNamespace w = Some cache"
    and "\<not> rejects cache (KVGet (the token))"
    and "\<not> truthy (map_of (entries cache) (the token))"
    and "auth_test (runtime this) client = Inr r"
  shows "(\<not> ok r \<or> truthy (error r) \<longrightarrow>
            callAuthTest this client token w =
              (Inr r, w\<lparr>authTestCacheNamespace := Some (cache\<lparr>calls := calls cache @ [KVGet (the token)]\<rparr>)\<rparr>)) \<and>
         (\<forall>cache'. authTestCacheNamespace (snd (callAuthTest this client token w)) = Some cache' \<and>
                    (entries cache' \<noteq> entries cache \<or>
                     put_keys (drop (length (calls cache)) (calls cache')) \<noteq> [])
                    \<longrightarrow> ok r \<and> \<not> truthy (error r))"
proof -
  note m = callAuthTest_miss[OF assms]
  show ?thesis
  proof (cases "ok r \<and> \<not> truthy (error r)")
    case True
    then show ?thesis by simp
  next
    case False
    then have "callAuthTest this client token w =
        (Inr r, w\<lparr>authTestCacheNamespace := Some (cache\<lparr>calls := calls cache @ [KVGet (the token)]\<rparr>)\<rparr>)"
      unfolding m if_not_P[OF False] by (simp add: logged_def)
    then show ?thesis using False by auto
  qed
qed

text \<open>
  The store with contents, cache on and empty: \<open>auth.test\<close> for a revoked token returns
  \<open>{ok: false, error: "invalid_auth"}\<close>, which is returned and not cached.
\<close>

theorem failed_auth_test_is_not_cached_witness:
  "\<not> ok demo_failed_response \<and> truthy (error demo_failed_response) \<and>
   callAuthTest demo_cached_store (Some ''xoxb-revoked'') (Some ''xoxb-revoked'') demo_namespaces =
     (Inr demo_failed_response,
      demo_namespaces\<lparr>authTestCacheNamespace :=
         Some \<lparr> entries = [], list_limit = 2, rejects = (\<lambda>_. False), calls = [KVGet ''xoxb-revoked''] \<rparr>\<rparr>)"
proof -
  let ?cache = "\<lparr> entries = [], list_limit = 2, rejects = (\<lambda>_. False), calls = [] \<rparr> :: KVNamespace"
  have h: "truthy (Some ''xoxb-revoked'')" "authTestCacheEnabled demo_cached_store"
    "authTestCacheNamespace demo_namespaces = Some ?cache"
    "\<not> rejects ?cache (KVGet (the (Some ''xoxb-revoked'')))"
    "\<not> truthy (map_of (entries ?cache) (the (Some ''xoxb-revoked'')))"
    "auth_test (runtime demo_cached_store) (Some ''xoxb-revoked'') = Inr demo_failed_response"
    by (simp_all add: demo_cached_store_def demo_store_def demo_namespaces_def demo_runtime_def)
  have f: "\<not> ok demo_failed_response \<and> truthy (error demo_failed_response)"
    by (simp add: demo_failed_response_def)
  from failed_auth_test_is_not_cached[OF h] f show ?thesis by simp
qed

section \<open>The authorize callable\<close>

lemma callAuthTest_uncached:
  "\<not> authTestCacheEnabled this \<Longrightarrow> callAuthTest this client token w = (auth_test (runtime this) client, w)"
  by (simp add: callAuthTest_def external_def)

lemma rotate_bot_no_rotation:
  assumes "truthy (bot_refresh_token b)"
    and "performRotation (runtime this)
           \<lparr> rot_bot = Some \<lparr> access_token = bot_token b, refresh_token = bot_refresh_token b,
                              token_expires_at = bot_token_expires_at b \<rparr>,
             rot_user = None \<rparr> = Inr None"
  shows "rotate_bot this (Some b) w = (Inr (Some b), w)"
  using assms by (simp add: rotate_bot_def await_def external_def resolve_def)

text \<open>
  The callable on the store with contents, for the request of user \<open>U1\<close> in team \<open>T1\<close>
  made on behalf of actor \<open>U2\<close>.
\<close>

lemma demo_find_bot:
  "findBotInstallation demo_store (query_of demo_context) demo_namespaces =
     (Inr (Some demo_installation_U1), demo_namespaces\<lparr>storage := demo_storage\<lparr>calls := [KVGet ''C/_:T1'']\<rparr>\<rparr>)"
  by (simp add: findBotInstallation_eq demo_namespaces_def demo_storage_def demo_store_def
        demo_runtime_def query_of_def demo_context_def toBotInstallationQuery_def or_else_def logged_def
        demo_payload_U1_def)

lemma demo_find_user:
  "findUserInstallation demo_store (query_of demo_context)
     (demo_namespaces\<lparr>storage := demo_storage\<lparr>calls := [KVGet ''C/_:T1'']\<rparr>\<rparr>) =
     (Inr (Some demo_installation_U1),
      demo_namespaces\<lparr>storage := demo_storage\<lparr>calls := [KVGet ''C/_:T1'', KVGet ''C/_:T1:U1'']\<rparr>\<rparr>)"
  by (simp add: findUserInstallation_eq demo_namespaces_def demo_storage_def demo_store_def
        demo_runtime_def query_of_def demo_context_def toUserInstallationQuery_def or_else_def logged_def
        demo_payload_U1_def)

lemma demo_authorize:
  "toAuthorize demo_store demo_context demo_namespaces =
     (Inr \<lparr> res_enterpriseId = None, res_teamId = Some ''T1'', res_team = Some ''Acme'',
            res_url = Some ''https://acme.slack.com/'', botId = Some ''B1'', botUserId = Some ''UB1'',
            botToken = Some ''xoxb-1'', botScopes = [''chat:write'', ''commands''],
            res_userId = Some ''U1'', res_user = Some ''acme-bot'', userToken = Some ''xoxp-U1'',
            userScopes = None \<rparr>,
      demo_namespaces\<lparr>storage := demo_storage\<lparr>calls := [KVGet ''C/_:T1'', KVGet ''C/_:T1:U1'']\<rparr>\<rparr>)"
proof -
  have nc: "\<not> authTestCacheEnabled demo_store" by (simp add: demo_store_def)
  have rt: "runtime demo_store = demo_runtime" by (simp add: demo_store_def)
  have rot: "rotate_bot demo_store (Some demo_installation_U1) w = (Inr (Some demo_installation_U1), w)" for w
    by (rule rotate_bot_no_rotation) (simp_all add: demo_installation_U1_def rt demo_runtime_def)
  have rotu: "rotate_user demo_store (Some demo_installation_U1) w = (Inr (Some demo_installation_U1), w)" for w
    by (simp add: rotate_user_def demo_installation_U1_def resolve_def)
  have tok: "bot_token demo_installation_U1 = Some ''xoxb-1''" by (simp add: demo_installation_U1_def)
  have at: "auth_test demo_runtime (Some ''xoxb-1'') = Inr demo_response" by (simp add: demo_runtime_def)
  have sc: "Headers_get (headers demo_response) ''x-oauth-scopes'' = Some ''chat:write,commands''"
    by code_simp
  have sp: "split_comma ''chat:write,commands'' = [''chat:write'', ''commands'']" by simp
  show ?thesis
    by (simp add: toAuthorize_def authorize_body_def try_catch_def await_def demo_find_bot rot tok
          callAuthTest_uncached[OF nc] rt at sc sp demo_find_user rotu user_auth_test_def resolve_def Let_def)
       (simp add: demo_installation_U1_def demo_response_def)
qed


text \<open>
  The query for the user lookup is computed and then not used: the callable does not
  depend on the actor's identity at all.
\<close>

lemma toAuthorize_ignores_actor_identity:
  "toAuthorize this (c\<lparr>ctx_actorEnterpriseId := e, ctx_actorTeamId := t, ctx_actorUserId := u\<rparr>) =
   toAuthorize this c"
  by (simp add: toAuthorize_def authorize_body_def query_of_def Let_def)

text \<open>
  Claim C1. With a user-token-resolution policy other than \<open>installer\<close>, the query the
  callable computes for the user lookup carries the actor's identity (\<open>U2\<close>, whose user
  installation is stored under \<open>C/_:T1:U2\<close> with the token \<open>xoxp-U2\<close>), but the lookup is
  made with the installing identity: the only keys read are \<open>C/_:T1\<close> and \<open>C/_:T1:U1\<close>, and
  the result carries the user id \<open>U1\<close> and the token \<open>xoxp-U1\<close>.
\<close>

theorem toAuthorize_user_lookup_ignores_actor:
  "SLACK_USER_TOKEN_RESOLUTION (env demo_store) \<noteq> Some ''installer'' \<and>
   toUserInstallationQuery (SLACK_CLIENT_ID (env demo_store)) (userQuery_of demo_store demo_context) = ''C/_:T1:U2'' \<and>
   map_of (entries (storage demo_namespaces)) ''C/_:T1:U2'' = Some demo_payload_U2 \<and>
   JSON_parse_installation (runtime demo_store) demo_payload_U2 = Inr demo_installation_U2 \<and>
   user_token demo_installation_U2 = Some ''xoxp-U2'' \<and>
   (\<exists>r w'. toAuthorize demo_store demo_context demo_namespaces = (Inr r, w') \<and>
           res_userId r = Some ''U1'' \<and> userToken r = Some ''xoxp-U1'' \<and>
           calls (storage w') = [KVGet ''C/_:T1'', KVGet ''C/_:T1:U1''])"
proof -
  have "SLACK_USER_TOKEN_RESOLUTION (env demo_store) \<noteq> Some ''installer''"
    by (simp add: demo_store_def)
  moreover have "toUserInstallationQuery (SLACK_CLIENT_ID (env demo_store)) (userQuery_of demo_store demo_context) = ''C/_:T1:U2''"
    by (simp add: toUserInstallationQuery_def userQuery_of_def query_of_def demo_store_def demo_context_def or_else_def)
  moreover have "map_of (entries (storage demo_namespaces)) ''C/_:T1:U2'' = Some demo_payload_U2"
    by (simp add: demo_namespaces_def demo_storage_def)
  moreover have "JSON_parse_installation (runtime demo_store) demo_payload_U2 = Inr demo_installation_U2"
    by (simp add: demo_store_def demo_runtime_def demo_payload_U1_def demo_payload_U2_def)
  moreover have "user_token demo_installation_U2 = Some ''xoxp-U2''"
    by (simp add: demo_installation_U2_def)
  moreover have "\<exists>r w'. toAuthorize demo_store demo_context demo_namespaces = (Inr r, w') \<and>
           res_userId r = Some ''U1'' \<and> userToken r = Some ''xoxp-U1'' \<and>
           calls (storage w') = [KVGet ''C/_:T1'', KVGet ''C/_:T1:U1'']"
    by (simp add: demo_authorize)
  ultimately show ?thesis by blast
qed

subsection \<open>When the steps of the callable resolve\<close>

lemma rotate_bot_nothing:
  assumes "truthy (bot_refresh_token b)"
    and "performRotation (runtime this)
           \<lparr> rot_bot = Some \<lparr> access_token = bot_token b, refresh_token = bot_refresh_token b,
                              token_expires_at = bot_token_expires_at b \<rparr>,
             rot_user = None \<rparr> = Inr m"
    and "refreshed_bot m = None"
  shows "rotate_bot this (Some b) w = (Inr (Some b), w)"
  using assms
  by (simp add: rotate_bot_def await_def external_def resolve_def refreshed_bot_def split: option.splits)

lemma map_of_filter_key:
  "map_of (filter (\<lambda>e. fst e \<noteq> key) es) k = (if k = key then None else map_of es k)"
  by (induction es) auto

lemma namespaces_answer_storage_logged:
  "namespaces_answer this w \<Longrightarrow> namespaces_answer this (w\<lparr>storage := logged c (storage w)\<rparr>)"
  by (simp add: namespaces_answer_def logged_def)

lemma namespaces_answer_storage_put:
  assumes "namespaces_answer this w"
  shows "on_storage (kv_put k v t) w =
           (Inr (), w\<lparr>storage := logged (KVPut k v t)
                         ((storage w)\<lparr>entries := (k, v) # filter (\<lambda>e. fst e \<noteq> k) (entries (storage w))\<rparr>)\<rparr>)"
    and "namespaces_answer this
           (w\<lparr>storage := logged (KVPut k v t)
                 ((storage w)\<lparr>entries := (k, v) # filter (\<lambda>e. fst e \<noteq> k) (entries (storage w))\<rparr>)\<rparr>)"
  using assms by (simp_all add: namespaces_answer_def on_storage_def kv_put_def logged_def)

lemma save_resolves:
  assumes "namespaces_answer this w"
  shows "\<exists>w'. save this i w = (Inr (), w') \<and> namespaces_answer this w'"
proof -
  let ?k1 = "toBotInstallationKey (SLACK_CLIENT_ID (env this)) i"
  let ?k2 = "toUserInstallationKey (SLACK_CLIENT_ID (env this)) i"
  let ?v = "JSON_stringify_installation (runtime this) i"
  let ?w1 = "w\<lparr>storage := logged (KVPut ?k1 ?v None)
                 ((storage w)\<lparr>entries := (?k1, ?v) # filter (\<lambda>e. fst e \<noteq> ?k1) (entries (storage w))\<rparr>)\<rparr>"
  let ?w2 = "?w1\<lparr>storage := logged (KVPut ?k2 ?v None)
                 ((storage ?w1)\<lparr>entries := (?k2, ?v) # filter (\<lambda>e. fst e \<noteq> ?k2) (entries (storage ?w1))\<rparr>)\<rparr>"
  have 1: "on_storage (kv_put ?k1 ?v None) w = (Inr (), ?w1)" and a1: "namespaces_answer this ?w1"
    using namespaces_answer_storage_put[OF assms] by blast+
  have 2: "on_storage (kv_put ?k2 ?v None) ?w1 = (Inr (), ?w2)" and a2: "namespaces_answer this ?w2"
    using namespaces_answer_storage_put[OF a1] by blast+
  have "save this i w = (Inr (), ?w2)"
    by (simp only: save_def await_def 1 2 prod.case sum.case)
  then show ?thesis using a2 by blast
qed

lemma rotate_user_resolves:
  assumes "namespaces_answer this w"
    and "\<forall>req. \<exists>m. performRotation (runtime this) req = Inr m"
  shows "\<exists>u w'. rotate_user this found w = (Inr u, w') \<and> namespaces_answer this w'"
proof (cases found)
  case None
  then show ?thesis using assms(1) by (simp add: rotate_user_def resolve_def)
next
  case (Some i)
  show ?thesis
  proof (cases "truthy (user_refresh_token i)")
    case False
    then show ?thesis using Some assms(1) by (simp add: rotate_user_def resolve_def)
  next
    case True
    let ?req = "\<lparr> rot_bot = None,
                   rot_user = Some \<lparr> access_token = user_token i, refresh_token = user_refresh_token i,
                                     token_expires_at = user_token_expires_at i \<rparr> \<rparr>"
    from assms(2) obtain m where m: "performRotation (runtime this) ?req = Inr m" by blast
    show ?thesis
    proof (cases "case m of None \<Rightarrow> None | Some x \<Rightarrow> rot_user x")
      case None
      then have "rotate_user this found w = (Inr (Some i), w)"
        using \<open>found = Some i\<close> True m
        by (cases m) (simp_all add: rotate_user_def await_def external_def resolve_def)
      then show ?thesis using assms(1) by blast
    next
      case (Some t)
      let ?i' = "i\<lparr> user_token := access_token t, user_refresh_token := refresh_token t,
                     user_token_expires_at := token_expires_at t \<rparr>"
      from save_resolves[OF assms(1), of ?i'] obtain w' where
        s: "save this ?i' w = (Inr (), w')" and a: "namespaces_answer this w'" by blast
      from Some obtain x where x: "m = Some x" "rot_user x = Some t"
        by (cases m) auto
      have "rotate_user this found w = (Inr (Some ?i'), w')"
        using \<open>found = Some i\<close> True m x s
        by (simp add: rotate_user_def await_def external_def resolve_def Let_def)
      then show ?thesis using a by blast
    qed
  qed
qed

lemma callAuthTest_resolves:
  assumes ans: "namespaces_answer this w"
    and str: "authTestCacheEnabled this \<longrightarrow>
              (\<forall>r. \<exists>x. JSON_parse_response (runtime this) (JSON_stringify_response (runtime this) r) = Inr x)"
    and at: "auth_test (runtime this) client = Inr r"
  shows "\<exists>r' w'. callAuthTest this client token w = (Inr r', w') \<and> namespaces_answer this w' \<and>
                 entries (storage w') = entries (storage w)"
proof (cases "truthy token \<and> authTestCacheEnabled this \<and> authTestCacheNamespace w \<noteq> None")
  case False
  then have "callAuthTest this client token w = (Inr r, w)"
    using at by (auto simp add: callAuthTest_def external_def)
  then show ?thesis using ans by blast
next
  case True
  then obtain ns where ns: "authTestCacheNamespace w = Some ns" by auto
  have en: "authTestCacheEnabled this" and tk: "truthy token" using True by simp_all
  have acc: "\<forall>c. \<not> rejects ns c"
    and rd: "\<forall>k s. map_of (entries ns) k = Some s \<longrightarrow> (\<exists>x. JSON_parse_response (runtime this) s = Inr x)"
    using ans ns en by (simp_all add: namespaces_answer_def)
  let ?w1 = "w\<lparr>authTestCacheNamespace := Some (logged (KVGet (the token)) ns)\<rparr>"
  have a1: "namespaces_answer this ?w1"
    using ans ns by (simp add: namespaces_answer_def logged_def)
  show ?thesis
  proof (cases "truthy (map_of (entries ns) (the token))")
    case hit: True
    then obtain s where s: "map_of (entries ns) (the token) = Some s" "s \<noteq> []"
      by (cases "map_of (entries ns) (the token)") auto
    with rd obtain x where x: "JSON_parse_response (runtime this) s = Inr x" by blast
    have "callAuthTest this client token w = (Inr (fromSerializableSlackAPIResponse x), ?w1)"
      using tk en ns acc s x
      by (simp add: callAuthTest_def await_def on_cache_get external_def resolve_def)
    then show ?thesis using a1 by auto
  next
    case miss: False
    have nr: "\<not> rejects ns (KVGet (the token))" using acc by simp
    note m = callAuthTest_miss[OF tk en ns nr miss at]
    show ?thesis
    proof (cases "ok r \<and> \<not> truthy (error r)")
      case False
      have "callAuthTest this client token w = (Inr r, ?w1)"
        unfolding m if_not_P[OF False] by (rule refl)
      then show ?thesis using a1 by auto
    next
      case True
      let ?v = "JSON_stringify_response (runtime this) (toSerializableSlackAPIResponse r)"
      let ?t = "if authTestCacheExpirationSecs this \<le> 0 then None else Some (authTestCacheExpirationSecs this)"
      let ?ns2 = "logged (KVPut (the token) ?v ?t)
                    ((logged (KVGet (the token)) ns)
                       \<lparr>entries := (the token, ?v) # filter (\<lambda>e. fst e \<noteq> the token) (entries ns)\<rparr>)"
      let ?w2 = "w\<lparr>authTestCacheNamespace := Some ?ns2\<rparr>"
      have put: "on_cache (kv_put (the token) ?v ?t) ?w1 = (Inr (), ?w2)"
        using acc by (simp add: on_cache_def kv_put_def logged_def)
      have "callAuthTest this client token w = (Inr r, ?w2)"
        unfolding m if_P[OF True] by (simp only: await_def put prod.case sum.case resolve_def)
      moreover from str en obtain x where "JSON_parse_response (runtime this) ?v = Inr x" by blast
      then have "namespaces_answer this ?w2"
        using ans acc rd by (simp add: namespaces_answer_def logged_def map_of_filter_key)
      ultimately show ?thesis by auto
    qed
  qed
qed


lemma authorize_after_no_rotation:
  assumes "findBotInstallation this (query_of c) w = (Inr (Some b), w1)"
    and "truthy (bot_refresh_token b)"
    and "performRotation (runtime this)
           \<lparr> rot_bot = Some \<lparr> access_token = bot_token b, refresh_token = bot_refresh_token b,
                              token_expires_at = bot_token_expires_at b \<rparr>,
             rot_user = None \<rparr> = Inr m"
    and "refreshed_bot m = None"
    and "callAuthTest this (bot_token b) (bot_token b) w1 = (Inr botAuthTest, w2)"
    and "findUserInstallation this (query_of c) w2 = (Inr found_user, w3)"
    and "rotate_user this found_user w3 = (Inr usr, w4)"
    and "user_auth_test this (bot_token b) usr w4 = (Inr userAuthTest, w5)"
  shows "\<exists>r. toAuthorize this c w = (Inr r, w5) \<and> botToken r = bot_token b"
  using assms(1,5-8) rotate_bot_nothing[OF assms(2-4)]
  by (simp add: toAuthorize_def authorize_body_def try_catch_def await_resolved resolve_def Let_def)

text \<open>
  Claim C5. Take a stored bot installation with a refresh token, and let \<open>performRotation\<close>
  resolve to nothing for it: to \<open>undefined\<close>, or to an object without bot tokens. Let the
  collaborators answer: the namespaces reject no call, \<open>auth.test\<close> of the bot client
  resolves, the rotator does not throw, the stored user payload for the request (if any)
  is readable, and, when the cache is on, so is what the cache holds and what the store
  writes to it. Then the callable does not throw: it returns a result, and the \<open>botToken\<close>
  of the result is the stored bot token.
\<close>

theorem authorize_survives_no_rotation:
  assumes ans: "namespaces_answer this w"
    and str: "authTestCacheEnabled this \<longrightarrow>
              (\<forall>r. \<exists>x. JSON_parse_response (runtime this) (JSON_stringify_response (runtime this) r) = Inr x)"
    and stored: "map_of (entries (storage w)) (toBotInstallationQuery (SLACK_CLIENT_ID (env this)) (query_of c)) = Some sb"
    and nonempty: "sb \<noteq> []"
    and parsed: "JSON_parse_installation (runtime this) sb = Inr b"
    and refresh: "truthy (bot_refresh_token b)"
    and no_rotation: "performRotation (runtime this)
           \<lparr> rot_bot = Some \<lparr> access_token = bot_token b, refresh_token = bot_refresh_token b,
                              token_expires_at = bot_token_expires_at b \<rparr>,
             rot_user = None \<rparr> = Inr m"
    and no_bot: "refreshed_bot m = None"
    and rotator: "\<forall>req. \<exists>m'. performRotation (runtime this) req = Inr m'"
    and at: "auth_test (runtime this) (bot_token b) = Inr botAuthTest"
    and user_payload: "\<forall>s. map_of (entries (storage w))
                            (toUserInstallationQuery (SLACK_CLIENT_ID (env this)) (query_of c)) = Some s \<longrightarrow>
                          s \<noteq> [] \<longrightarrow> (\<exists>u. JSON_parse_installation (runtime this) s = Inr u)"
  shows "\<exists>r w'. toAuthorize this c w = (Inr r, w') \<and> botToken r = bot_token b"
proof -
  let ?bk = "toBotInstallationQuery (SLACK_CLIENT_ID (env this)) (query_of c)"
  let ?uk = "toUserInstallationQuery (SLACK_CLIENT_ID (env this)) (query_of c)"
  let ?w1 = "w\<lparr>storage := logged (KVGet ?bk) (storage w)\<rparr>"
  have acc: "\<And>k. \<not> rejects (storage w) k" using ans by (simp add: namespaces_answer_def)
  have 1: "findBotInstallation this (query_of c) w = (Inr (Some b), ?w1)"
    using stored nonempty parsed by (simp add: findBotInstallation_eq[OF acc])
  have ans1: "namespaces_answer this ?w1" using ans by (rule namespaces_answer_storage_logged)
  from callAuthTest_resolves[OF ans1 str at, of "bot_token b"] obtain bt w2 where
    2: "callAuthTest this (bot_token b) (bot_token b) ?w1 = (Inr bt, w2)" and
    ans2: "namespaces_answer this w2" and
    ent2: "entries (storage w2) = entries (storage ?w1)"
    by blast
  let ?w3 = "w2\<lparr>storage := logged (KVGet ?uk) (storage w2)\<rparr>"
  have acc2: "\<And>k. \<not> rejects (storage w2) k" using ans2 by (simp add: namespaces_answer_def)
  have ent: "entries (storage w2) = entries (storage w)" using ent2 by (simp add: logged_def)
  have "\<exists>fu. (case map_of (entries (storage w)) ?uk of
                 None \<Rightarrow> Inr None
               | Some s \<Rightarrow> if s = [] then Inr None
                           else map_sum id Some (JSON_parse_installation (runtime this) s)) = Inr fu"
  proof (cases "map_of (entries (storage w)) ?uk")
    case None
    then show ?thesis by simp
  next
    case (Some s)
    show ?thesis
    proof (cases "s = []")
      case True
      then show ?thesis using Some by simp
    next
      case False
      with user_payload Some obtain u where "JSON_parse_installation (runtime this) s = Inr u" by blast
      then show ?thesis using Some False by simp
    qed
  qed
  then obtain fu where 3: "findUserInstallation this (query_of c) w2 = (Inr fu, ?w3)"
    by (auto simp add: findUserInstallation_eq[OF acc2] ent)
  have ans3: "namespaces_answer this ?w3" using ans2 by (rule namespaces_answer_storage_logged)
  from rotate_user_resolves[OF ans3 rotator, of fu] obtain u w4 where
    4: "rotate_user this fu ?w3 = (Inr u, w4)" and ans4: "namespaces_answer this w4"
    by blast
  have "\<exists>ua w5. user_auth_test this (bot_token b) u w4 = (Inr ua, w5)"
  proof (cases u)
    case None
    then show ?thesis by (simp add: user_auth_test_def resolve_def)
  next
    case (Some i)
    from callAuthTest_resolves[OF ans4 str at, of "user_token i"] obtain r' w5 where
      "callAuthTest this (bot_token b) (user_token i) w4 = (Inr r', w5)" by blast
    then show ?thesis using Some by (simp add: user_auth_test_def await_def resolve_def)
  qed
  then obtain ua w5 where 5: "user_auth_test this (bot_token b) u w4 = (Inr ua, w5)" by blast
  from authorize_after_no_rotation[OF 1 refresh no_rotation no_bot 2 3 4 5] show ?thesis by blast
qed

text \<open>
  The store with contents, whose bot installation of team \<open>T1\<close> has the refresh token
  \<open>xoxe-1\<close>: with the rotator that resolves to \<open>undefined\<close>, and with the rotator that
  resolves to an object without tokens, the result carries the stored \<open>xoxb-1\<close>.
\<close>

theorem authorize_survives_no_rotation_witness:
  "truthy (bot_refresh_token demo_installation_U1) \<and>
   bot_token demo_installation_U1 = Some ''xoxb-1'' \<and>
   performRotation (runtime demo_store)
     \<lparr> rot_bot = Some \<lparr> access_token = bot_token demo_installation_U1,
                        refresh_token = bot_refresh_token demo_installation_U1,
                        token_expires_at = bot_token_expires_at demo_installation_U1 \<rparr>,
       rot_user = None \<rparr> = Inr None \<and>
   (\<exists>r w'. toAuthorize demo_store demo_context demo_namespaces = (Inr r, w') \<and>
           botToken r = Some ''xoxb-1'') \<and>
   performRotation (runtime demo_store_empty_rotation)
     \<lparr> rot_bot = Some \<lparr> access_token = bot_token demo_installation_U1,
                        refresh_token = bot_refresh_token demo_installation_U1,
                        token_expires_at = bot_token_expires_at demo_installation_U1 \<rparr>,
       rot_user = None \<rparr> = Inr (Some \<lparr> rot_bot = None, rot_user = None \<rparr>) \<and>
   (\<exists>r w'. toAuthorize demo_store_empty_rotation demo_context demo_namespaces = (Inr r, w') \<and>
           botToken r = Some ''xoxb-1'')"
proof -
  let ?req = "\<lparr> rot_bot = Some \<lparr> access_token = bot_token demo_installation_U1,
                                   refresh_token = bot_refresh_token demo_installation_U1,
                                   token_expires_at = bot_token_expires_at demo_installation_U1 \<rparr>,
                  rot_user = None \<rparr>"
  have refresh: "truthy (bot_refresh_token demo_installation_U1)"
    by (simp add: demo_installation_U1_def)
  have tok: "bot_token demo_installation_U1 = Some ''xoxb-1''" by (simp add: demo_installation_U1_def)
  have nonempty: "demo_payload_U1 \<noteq> []" by (simp add: demo_payload_U1_def)
  have survives: "\<exists>r w'. toAuthorize S demo_context demo_namespaces = (Inr r, w') \<and>
                          botToken r = Some ''xoxb-1''"
    if env: "env S = env demo_store" and off: "\<not> authTestCacheEnabled S"
      and parse: "JSON_parse_installation (runtime S) = JSON_parse_installation demo_runtime"
      and test: "auth_test (runtime S) = auth_test demo_runtime"
      and rot: "performRotation (runtime S) = (\<lambda>_. Inr m)" and no_bot: "refreshed_bot m = None"
    for S m
  proof -
    have ans: "namespaces_answer S demo_namespaces"
      using off by (simp add: namespaces_answer_def demo_namespaces_def demo_storage_def)
    have str: "authTestCacheEnabled S \<longrightarrow>
                (\<forall>r. \<exists>x. JSON_parse_response (runtime S) (JSON_stringify_response (runtime S) r) = Inr x)"
      using off by simp
    have stored: "map_of (entries (storage demo_namespaces))
                    (toBotInstallationQuery (SLACK_CLIENT_ID (env S)) (query_of demo_context)) =
                  Some demo_payload_U1"
      by (simp add: env demo_namespaces_def demo_storage_def demo_store_def query_of_def demo_context_def
            toBotInstallationQuery_def or_else_def)
    have parsed: "JSON_parse_installation (runtime S) demo_payload_U1 = Inr demo_installation_U1"
      by (simp add: parse demo_runtime_def)
    have no_rotation: "performRotation (runtime S) ?req = Inr m" by (simp add: rot)
    have rotator: "\<forall>req. \<exists>m'. performRotation (runtime S) req = Inr m'" by (simp add: rot)
    have at: "auth_test (runtime S) (bot_token demo_installation_U1) = Inr demo_response"
      by (simp add: tok test demo_runtime_def)
    have user_payload: "\<forall>s. map_of (entries (storage demo_namespaces))
                              (toUserInstallationQuery (SLACK_CLIENT_ID (env S)) (query_of demo_context)) = Some s \<longrightarrow>
                            s \<noteq> [] \<longrightarrow> (\<exists>u. JSON_parse_installation (runtime S) s = Inr u)"
      by (simp add: env parse demo_namespaces_def demo_storage_def demo_store_def query_of_def demo_context_def
            toUserInstallationQuery_def or_else_def demo_runtime_def)
    from authorize_survives_no_rotation[OF ans str stored nonempty parsed refresh no_rotation no_bot
        rotator at user_payload]
    show ?thesis by (simp add: tok)
  qed
  have one: "\<exists>r w'. toAuthorize demo_store demo_context demo_namespaces = (Inr r, w') \<and>
                     botToken r = Some ''xoxb-1''"
    by (rule survives[of demo_store None])
       (simp_all add: demo_store_def demo_runtime_def refreshed_bot_def)
  have two: "\<exists>r w'. toAuthorize demo_store_empty_rotation demo_context demo_namespaces = (Inr r, w') \<and>
                     botToken r = Some ''xoxb-1''"
    by (rule survives[of demo_store_empty_rotation "Some \<lparr> rot_bot = None, rot_user = None \<rparr>"])
       (simp_all add: demo_store_empty_rotation_def demo_store_def demo_runtime_def refreshed_bot_def)
  have r1: "performRotation (runtime demo_store) ?req = Inr None"
    by (simp add: demo_store_def demo_runtime_def)
  have r2: "performRotation (runtime demo_store_empty_rotation) ?req =
              Inr (Some \<lparr> rot_bot = None, rot_user = None \<rparr>)"
    by (simp add: demo_store_empty_rotation_def demo_store_def demo_runtime_def)
  from refresh tok r1 one r2 two show ?thesis by blast
qed

subsection \<open>When a step of the callable rejects\<close>

lemma toAuthorize_of_body:
  "toAuthorize this c w =
     (case authorize_body this c (query_of c) w of
        (Inl e, w') \<Rightarrow> (Inl (AuthorizeError e (query_of c)), w')
      | (Inr r, w') \<Rightarrow> (Inr r, w'))"
  by (simp add: toAuthorize_def try_catch_def reject_def Let_def split: prod.splits sum.splits)

lemma body_rejects_at_find_bot:
  "findBotInstallation this q w = (Inl e, w1) \<Longrightarrow> authorize_body this c q w = (Inl e, w1)"
  by (simp add: authorize_body_def await_def)

lemma body_rejects_at_rotate_bot:
  "findBotInstallation this q w = (Inr found, w1) \<Longrightarrow> rotate_bot this found w1 = (Inl e, w2) \<Longrightarrow>
   authorize_body this c q w = (Inl e, w2)"
  by (simp add: authorize_body_def await_def)

lemma body_rejects_at_bot_auth_test:
  "findBotInstallation this q w = (Inr found, w1) \<Longrightarrow> rotate_bot this found w1 = (Inr b, w2) \<Longrightarrow>
   callAuthTest this (case b of None \<Rightarrow> None | Some i \<Rightarrow> bot_token i)
     (case b of None \<Rightarrow> None | Some i \<Rightarrow> bot_token i) w2 = (Inl e, w3) \<Longrightarrow>
   authorize_body this c q w = (Inl e, w3)"
  by (simp add: authorize_body_def await_def Let_def)

lemma body_rejects_at_find_user:
  "findBotInstallation this q w = (Inr found, w1) \<Longrightarrow> rotate_bot this found w1 = (Inr b, w2) \<Longrightarrow>
   callAuthTest this (case b of None \<Rightarrow> None | Some i \<Rightarrow> bot_token i)
     (case b of None \<Rightarrow> None | Some i \<Rightarrow> bot_token i) w2 = (Inr bt, w3) \<Longrightarrow>
   findUserInstallation this q w3 = (Inl e, w4) \<Longrightarrow>
   authorize_body this c q w = (Inl e, w4)"
  by (simp add: authorize_body_def await_def Let_def)

lemma body_rejects_at_rotate_user:
  "findBotInstallation this q w = (Inr found, w1) \<Longrightarrow> rotate_bot this found w1 = (Inr b, w2) \<Longrightarrow>
   callAuthTest this (case b of None \<Rightarrow> None | Some i \<Rightarrow> bot_token i)
     (case b of None \<Rightarrow> None | Some i \<Rightarrow> bot_token i) w2 = (Inr bt, w3) \<Longrightarrow>
   findUserInstallation this q w3 = (Inr fu, w4) \<Longrightarrow>
   rotate_user this fu w4 = (Inl e, w5) \<Longrightarrow>
   authorize_body this c q w = (Inl e, w5)"
  by (simp add: authorize_body_def await_def Let_def)

lemma body_rejects_at_user_auth_test:
  "findBotInstallation this q w = (Inr found, w1) \<Longrightarrow> rotate_bot this found w1 = (Inr b, w2) \<Longrightarrow>
   callAuthTest this (case b of None \<Rightarrow> None | Some i \<Rightarrow> bot_token i)
     (case b of None \<Rightarrow> None | Some i \<Rightarrow> bot_token i) w2 = (Inr bt, w3) \<Longrightarrow>
   findUserInstallation this q w3 = (Inr fu, w4) \<Longrightarrow>
   rotate_user this fu w4 = (Inr u, w5) \<Longrightarrow>
   user_auth_test this (case b of None \<Rightarrow> None | Some i \<Rightarrow> bot_token i) u w5 = (Inl e, w6) \<Longrightarrow>
   authorize_body this c q w = (Inl e, w6)"
  by (simp add: authorize_body_def await_def Let_def)

text \<open>
  Claim C9. The callable rejects only with an \<open>AuthorizeError\<close>, which carries the query
  built from the request and the error the body of the \<open>try\<close> block threw; and whatever
  the body throws is caught and thrown again in that form. The body throws whenever one of
  its awaited steps does: the bot lookup, the bot rotation, \<open>auth.test\<close> for the bot token,
  the user lookup, the user rotation, \<open>auth.test\<close> for the user token. The lemmas after
  the theorem give the sources inside the steps: a rejected storage or cache call, a stored
  or cached payload that \<open>JSON.parse\<close> rejects, a rotator that throws, a rejected \<open>save\<close>,
  and \<open>auth.test\<close> throwing.
\<close>

theorem authorize_rejects_only_with_AuthorizeError:
  "(toAuthorize this c w = (Inl err, w') \<longrightarrow>
      (\<exists>cause. err = AuthorizeError cause (query_of c) \<and>
               authorize_body this c (query_of c) w = (Inl cause, w'))) \<and>
   (authorize_body this c (query_of c) w = (Inl e, w') \<longrightarrow>
      toAuthorize this c w = (Inl (AuthorizeError e (query_of c)), w')) \<and>
   (findBotInstallation this (query_of c) w = (Inl e, w1) \<longrightarrow>
      toAuthorize this c w = (Inl (AuthorizeError e (query_of c)), w1)) \<and>
   (findBotInstallation this (query_of c) w = (Inr found, w1) \<longrightarrow>
    rotate_bot this found w1 = (Inl e, w2) \<longrightarrow>
      toAuthorize this c w = (Inl (AuthorizeError e (query_of c)), w2)) \<and>
   (findBotInstallation this (query_of c) w = (Inr found, w1) \<longrightarrow>
    rotate_bot this found w1 = (Inr b, w2) \<longrightarrow>
    callAuthTest this (case b of None \<Rightarrow> None | Some i \<Rightarrow> bot_token i)
      (case b of None \<Rightarrow> None | Some i \<Rightarrow> bot_token i) w2 = (Inl e, w3) \<longrightarrow>
      toAuthorize this c w = (Inl (AuthorizeError e (query_of c)), w3)) \<and>
   (findBotInstallation this (query_of c) w = (Inr found, w1) \<longrightarrow>
    rotate_bot this found w1 = (Inr b, w2) \<longrightarrow>
    callAuthTest this (case b of None \<Rightarrow> None | Some i \<Rightarrow> bot_token i)
      (case b of None \<Rightarrow> None | Some i \<Rightarrow> bot_token i) w2 = (Inr bt, w3) \<longrightarrow>
    findUserInstallation this (query_of c) w3 = (Inl e, w4) \<longrightarrow>
      toAuthorize this c w = (Inl (AuthorizeError e (query_of c)), w4)) \<and>
   (findBotInstallation this (query_of c) w = (Inr found, w1) \<longrightarrow>
    rotate_bot this found w1 = (Inr b, w2) \<longrightarrow>
    callAuthTest this (case b of None \<Rightarrow> None | Some i \<Rightarrow> bot_token i)
      (case b of None \<Rightarrow> None | Some i \<Rightarrow> bot_token i) w2 = (Inr bt, w3) \<longrightarrow>
    findUserInstallation this (query_of c) w3 = (Inr fu, w4) \<longrightarrow>
    rotate_user this fu w4 = (Inl e, w5) \<longrightarrow>
      toAuthorize this c w = (Inl (AuthorizeError e (query_of c)), w5)) \<and>
   (findBotInstallation this (query_of c) w = (Inr found, w1) \<longrightarrow>
    rotate_bot this found w1 = (Inr b, w2) \<longrightarrow>
    callAuthTest this (case b of None \<Rightarrow> None | Some i \<Rightarrow> bot_token i)
      (case b of None \<Rightarrow> None | Some i \<Rightarrow> bot_token i) w2 = (Inr bt, w3) \<longrightarrow>
    findUserInstallation this (query_of c) w3 = (Inr fu, w4) \<longrightarrow>
    rotate_user this fu w4 = (Inr u, w5) \<longrightarrow>
    user_auth_test this (case b of None \<Rightarrow> None | Some i \<Rightarrow> bot_token i) u w5 = (Inl e, w6) \<longrightarrow>
      toAuthorize this c w = (Inl (AuthorizeError e (query_of c)), w6))"
proof (intro conjI impI)
  assume "toAuthorize this c w = (Inl err, w')"
  then show "\<exists>cause. err = AuthorizeError cause (query_of c) \<and>
               authorize_body this c (query_of c) w = (Inl cause, w')"
    by (auto simp add: toAuthorize_of_body split: prod.splits sum.splits)
next
  assume "authorize_body this c (query_of c) w = (Inl e, w')"
  then show "toAuthorize this c w = (Inl (AuthorizeError e (query_of c)), w')"
    by (simp add: toAuthorize_of_body)
next
  assume "findBotInstallation this (query_of c) w = (Inl e, w1)"
  then show "toAuthorize this c w = (Inl (AuthorizeError e (query_of c)), w1)"
    by (simp add: toAuthorize_of_body body_rejects_at_find_bot)
next
  assume "findBotInstallation this (query_of c) w = (Inr found, w1)"
    "rotate_bot this found w1 = (Inl e, w2)"
  then show "toAuthorize this c w = (Inl (AuthorizeError e (query_of c)), w2)"
    by (simp add: toAuthorize_of_body body_rejects_at_rotate_bot)
next
  assume "findBotInstallation this (query_of c) w = (Inr found, w1)"
    "rotate_bot this found w1 = (Inr b, w2)"
    "callAuthTest this (case b of None \<Rightarrow> None | Some i \<Rightarrow> bot_token i)
      (case b of None \<Rightarrow> None | Some i \<Rightarrow> bot_token i) w2 = (Inl e, w3)"
  then show "toAuthorize this c w = (Inl (AuthorizeError e (query_of c)), w3)"
    by (simp add: toAuthorize_of_body body_rejects_at_bot_auth_test)
next
  assume "findBotInstallation this (query_of c) w = (Inr found, w1)"
    "rotate_bot this found w1 = (Inr b, w2)"
    "callAuthTest this (case b of None \<Rightarrow> None | Some i \<Rightarrow> bot_token i)
      (case b of None \<Rightarrow> None | Some i \<Rightarrow> bot_token i) w2 = (Inr bt, w3)"
    "findUserInstallation this (query_of c) w3 = (Inl e, w4)"
  then show "toAuthorize this c w = (Inl (AuthorizeError e (query_of c)), w4)"
    by (simp add: toAuthorize_of_body body_rejects_at_find_user)
next
  assume "findBotInstallation this (query_of c) w = (Inr found, w1)"
    "rotate_bot this found w1 = (Inr b, w2)"
    "callAuthTest this (case b of None \<Rightarrow> None | Some i \<Rightarrow> bot_token i)
      (case b of None \<Rightarrow> None | Some i \<Rightarrow> bot_token i) w2 = (Inr bt, w3)"
    "findUserInstallation this (query_of c) w3 = (Inr fu, w4)"
    "rotate_user this fu w4 = (Inl e, w5)"
  then show "toAuthorize this c w = (Inl (AuthorizeError e (query_of c)), w5)"
    by (simp add: toAuthorize_of_body body_rejects_at_rotate_user)
next
  assume "findBotInstallation this (query_of c) w = (Inr found, w1)"
    "rotate_bot this found w1 = (Inr b, w2)"
    "callAuthTest this (case b of None \<Rightarrow> None | Some i \<Rightarrow> bot_token i)
      (case b of None \<Rightarrow> None | Some i \<Rightarrow> bot_token i) w2 = (Inr bt, w3)"
    "findUserInstallation this (query_of c) w3 = (Inr fu, w4)"
    "rotate_user this fu w4 = (Inr u, w5)"
    "user_auth_test this (case b of None \<Rightarrow> None | Some i \<Rightarrow> bot_token i) u w5 = (Inl e, w6)"
  then show "toAuthorize this c w = (Inl (AuthorizeError e (query_of c)), w6)"
    by (simp add: toAuthorize_of_body body_rejects_at_user_auth_test)
qed

lemma find_bot_rejects_with_storage:
  "rejects (storage w) (KVGet (toBotInstallationQuery (SLACK_CLIENT_ID (env this)) q)) \<Longrightarrow>
   findBotInstallation this q w =
     (Inl KVError, w\<lparr>storage := logged (KVGet (toBotInstallationQuery (SLACK_CLIENT_ID (env this)) q)) (storage w)\<rparr>)"
  by (simp add: findBotInstallation_def await_def on_storage_def kv_get_def)

lemma find_user_rejects_with_storage:
  "rejects (storage w) (KVGet (toUserInstallationQuery (SLACK_CLIENT_ID (env this)) q)) \<Longrightarrow>
   findUserInstallation this q w =
     (Inl KVError, w\<lparr>storage := logged (KVGet (toUserInstallationQuery (SLACK_CLIENT_ID (env this)) q)) (storage w)\<rparr>)"
  by (simp add: findUserInstallation_def await_def on_storage_def kv_get_def)

lemma find_bot_rejects_with_parse:
  assumes "\<not> rejects (storage w) (KVGet (toBotInstallationQuery (SLACK_CLIENT_ID (env this)) q))"
    and "map_of (entries (storage w)) (toBotInstallationQuery (SLACK_CLIENT_ID (env this)) q) = Some s"
    and "s \<noteq> []" and "JSON_parse_installation (runtime this) s = Inl e"
  shows "fst (findBotInstallation this q w) = Inl e"
  using assms by (simp add: findBotInstallation_eq)

lemma find_user_rejects_with_parse:
  assumes "\<not> rejects (storage w) (KVGet (toUserInstallationQuery (SLACK_CLIENT_ID (env this)) q))"
    and "map_of (entries (storage w)) (toUserInstallationQuery (SLACK_CLIENT_ID (env this)) q) = Some s"
    and "s \<noteq> []" and "JSON_parse_installation (runtime this) s = Inl e"
  shows "fst (findUserInstallation this q w) = Inl e"
  using assms by (simp add: findUserInstallation_eq)

lemma rotate_bot_rejects_with_rotator:
  assumes "truthy (bot_refresh_token b)"
    and "performRotation (runtime this)
           \<lparr> rot_bot = Some \<lparr> access_token = bot_token b, refresh_token = bot_refresh_token b,
                              token_expires_at = bot_token_expires_at b \<rparr>,
             rot_user = None \<rparr> = Inl e"
  shows "rotate_bot this (Some b) w = (Inl e, w)"
  using assms by (simp add: rotate_bot_def await_def external_def)

lemma rotate_user_rejects_with_rotator:
  assumes "truthy (user_refresh_token u)"
    and "performRotation (runtime this)
           \<lparr> rot_bot = None,
             rot_user = Some \<lparr> access_token = user_token u, refresh_token = user_refresh_token u,
                               token_expires_at = user_token_expires_at u \<rparr> \<rparr> = Inl e"
  shows "rotate_user this (Some u) w = (Inl e, w)"
  using assms by (simp add: rotate_user_def await_def external_def)

lemma save_rejects_with_storage:
  "rejects (storage w) (KVPut (toBotInstallationKey (SLACK_CLIENT_ID (env this)) i)
                           (JSON_stringify_installation (runtime this) i) None) \<Longrightarrow>
   fst (save this i w) = Inl KVError"
  by (simp add: save_def await_def on_storage_def kv_put_def)

lemma rotate_bot_rejects_with_save:
  assumes "truthy (bot_refresh_token b)"
    and "performRotation (runtime this)
           \<lparr> rot_bot = Some \<lparr> access_token = bot_token b, refresh_token = bot_refresh_token b,
                              token_expires_at = bot_token_expires_at b \<rparr>,
             rot_user = None \<rparr> = Inr (Some m)"
    and "rot_bot m = Some t"
    and "save this (b\<lparr> bot_token := access_token t, bot_refresh_token := refresh_token t,
                       bot_token_expires_at := token_expires_at t \<rparr>) w = (Inl e, w')"
  shows "rotate_bot this (Some b) w = (Inl e, w')"
  using assms by (simp add: rotate_bot_def await_def external_def Let_def)

lemma rotate_user_rejects_with_save:
  assumes "truthy (user_refresh_token u)"
    and "performRotation (runtime this)
           \<lparr> rot_bot = None,
             rot_user = Some \<lparr> access_token = user_token u, refresh_token = user_refresh_token u,
                               token_expires_at = user_token_expires_at u \<rparr> \<rparr> = Inr (Some m)"
    and "rot_user m = Some t"
    and "save this (u\<lparr> user_token := access_token t, user_refresh_token := refresh_token t,
                       user_token_expires_at := token_expires_at t \<rparr>) w = (Inl e, w')"
  shows "rotate_user this (Some u) w = (Inl e, w')"
  using assms by (simp add: rotate_user_def await_def external_def Let_def)

lemma callAuthTest_rejects_with_auth_test:
  assumes "auth_test (runtime this) client = Inl e"
    and "\<forall>ns. authTestCacheNamespace w = Some ns \<longrightarrow>
           \<not> rejects ns (KVGet (the token)) \<and> \<not> truthy (map_of (entries ns) (the token))"
  shows "fst (callAuthTest this client token w) = Inl e"
proof (cases "truthy token \<and> authTestCacheEnabled this \<and> authTestCacheNamespace w \<noteq> None")
  case True
  then obtain ns where ns: "authTestCacheNamespace w = Some ns" by auto
  with assms(2) have "\<not> rejects ns (KVGet (the token))" "\<not> truthy (map_of (entries ns) (the token))"
    by auto
  then show ?thesis using True ns assms(1)
    by (simp add: callAuthTest_def await_def on_cache_get external_def)
next
  case False
  then show ?thesis using assms(1) by (auto simp add: callAuthTest_def external_def)
qed

lemma callAuthTest_rejects_with_cache_get:
  assumes "truthy token" and "authTestCacheEnabled this" and "authTestCacheNamespace w = Some ns"
    and "rejects ns (KVGet (the token))"
  shows "fst (callAuthTest this client token w) = Inl KVError"
  using assms by (simp add: callAuthTest_def await_def on_cache_def kv_get_def)

lemma callAuthTest_rejects_with_parse:
  assumes "truthy token" and "authTestCacheEnabled this" and "authTestCacheNamespace w = Some ns"
    and "\<not> rejects ns (KVGet (the token))"
    and "map_of (entries ns) (the token) = Some s" and "s \<noteq> []"
    and "JSON_parse_response (runtime this) s = Inl e"
  shows "fst (callAuthTest this client token w) = Inl e"
  using assms by (simp add: callAuthTest_def await_def on_cache_get external_def)

lemma callAuthTest_rejects_with_cache_put:
  assumes "truthy token" and "authTestCacheEnabled this" and "authTestCacheNamespace w = Some ns"
    and "\<not> rejects ns (KVGet (the token))"
    and "\<not> truthy (map_of (entries ns) (the token))"
    and "auth_test (runtime this) client = Inr r" and "ok r" and "\<not> truthy (error r)"
    and "rejects ns (KVPut (the token)
           (JSON_stringify_response (runtime this) (toSerializableSlackAPIResponse r))
           (if authTestCacheExpirationSecs this \<le> 0 then None else Some (authTestCacheExpirationSecs this)))"
  shows "fst (callAuthTest this client token w) = Inl KVError"
  using assms
  by (simp add: callAuthTest_miss[OF assms(1-6)] await_def on_cache_def kv_put_def logged_def)

lemma user_auth_test_rejects:
  "callAuthTest this client (user_token u) w = (Inl e, w') \<Longrightarrow>
   user_auth_test this client (Some u) w = (Inl e, w')"
  by (simp add: user_auth_test_def await_def)

text \<open>
  A request for team \<open>T2\<close>, whose stored payload is malformed: the bot lookup rejects with
  a \<open>SyntaxError\<close>, and the callable rejects with an \<open>AuthorizeError\<close> that carries it and
  the query.
\<close>

theorem authorize_rejects_only_with_AuthorizeError_witness:
  "findBotInstallation demo_store (query_of (demo_context\<lparr>ctx_teamId := Some ''T2''\<rparr>)) demo_namespaces =
     (Inl SyntaxError, demo_namespaces\<lparr>storage := demo_storage\<lparr>calls := [KVGet ''C/_:T2'']\<rparr>\<rparr>) \<and>
   toAuthorize demo_store (demo_context\<lparr>ctx_teamId := Some ''T2''\<rparr>) demo_namespaces =
     (Inl (AuthorizeError SyntaxError
            \<lparr> enterpriseId = None, teamId = Some ''T2'', userId = Some ''U1'', isEnterpriseInstall = None \<rparr>),
      demo_namespaces\<lparr>storage := demo_storage\<lparr>calls := [KVGet ''C/_:T2'']\<rparr>\<rparr>)"
proof -
  let ?c = "demo_context\<lparr>ctx_teamId := Some ''T2''\<rparr>"
  let ?w1 = "demo_namespaces\<lparr>storage := demo_storage\<lparr>calls := [KVGet ''C/_:T2'']\<rparr>\<rparr>"
  have q: "query_of ?c = \<lparr> enterpriseId = None, teamId = Some ''T2'', userId = Some ''U1'', isEnterpriseInstall = None \<rparr>"
    by (simp add: query_of_def demo_context_def)
  have f: "findBotInstallation demo_store (query_of ?c) demo_namespaces = (Inl SyntaxError, ?w1)"
    by (simp add: findBotInstallation_eq q demo_namespaces_def demo_storage_def
          demo_store_def demo_runtime_def toBotInstallationQuery_def or_else_def logged_def
          demo_payload_U1_def demo_payload_U2_def)
  from authorize_rejects_only_with_AuthorizeError[of demo_store ?c demo_namespaces _ _ SyntaxError ?w1]
  have "findBotInstallation demo_store (query_of ?c) demo_namespaces = (Inl SyntaxError, ?w1) \<longrightarrow>
        toAuthorize demo_store ?c demo_namespaces = (Inl (AuthorizeError SyntaxError (query_of ?c)), ?w1)"
    by blast
  with f show ?thesis by (simp add: q)
qed


section \<open>Serialising a response\<close>

























end
